theory Spec2Isabelle
  imports Main "HOL-Library.Sublist"
begin

section \<open>Values, environment and state\<close>

text \<open>
  The add-on (\<^verbatim>\<open>src/api/index.js\<close>) is JavaScript running on Node. Its strings are modelled
  as \<^typ>\<open>string\<close>: lists of code units, restricted to the code units \<open>0..255\<close> that
  \<^typ>\<open>char\<close> has. A thrown value is an \<^verbatim>\<open>Error\<close> object, of which the program only ever
  reads \<^verbatim>\<open>err.message\<close>.
\<close>

datatype js_error = JsError (message: string)

text \<open>A stream object as the scrapers push it: \<^verbatim>\<open>{ title, url, name }\<close>.\<close>

record stream =
  title :: string
  url :: string
  name :: string

datatype console_call = ConsoleWarn "string list" | ConsoleError "string list"

text \<open>
  The libraries the program calls are its environment, taken as parameters:
  \<^item> \<open>axios_get n u\<close>: what \<^verbatim>\<open>await axios.get(u)\<close> gives when \<open>n\<close> requests were made
    before it: \<open>Inr\<close> the body (\<^verbatim>\<open>res.data\<close>, taken to be a text), or \<open>Inl\<close> the error the
    promise rejects with (network failure, timeout, non-success status);
  \<^item> \<open>cheerio_iframes html\<close>: the elements that \<^verbatim>\<open>cheerio.load(html)('iframe')\<close> selects,
    in document order, each given by its \<^verbatim>\<open>src\<close> attribute (\<open>None\<close> when the element
    has none);
  \<^item> \<open>URL_href ref base\<close>: \<^verbatim>\<open>new URL(ref, base).href\<close>, or \<open>Inl\<close> the \<^verbatim>\<open>TypeError\<close>
    the constructor throws;
  \<^item> \<open>redis_fault n\<close>: the error the \<open>n\<close>-th command sent to Redis rejects with, if any;
  \<^item> \<open>JSON_syntax_error t\<close>: the \<^verbatim>\<open>SyntaxError\<close> that \<^verbatim>\<open>JSON.parse(t)\<close> throws when \<open>t\<close>
    is not a JSON text (its message is the engine's).
\<close>

record world =
  axios_get :: "nat \<Rightarrow> string \<Rightarrow> js_error + string"
  cheerio_iframes :: "string \<Rightarrow> string option list"
  URL_href :: "string \<Rightarrow> string \<Rightarrow> js_error + string"
  redis_fault :: "nat \<Rightarrow> js_error option"
  JSON_syntax_error :: "string \<Rightarrow> js_error"

text \<open>
  What a run can change or leave behind: the requests sent (in order), the console
  output, and the Redis database (each key with its value and the time it expires at),
  with the number of commands sent to it and its clock, in seconds.
\<close>

record state =
  requests :: "string list"
  console :: "console_call list"
  redis_db :: "string \<Rightarrow> (string \<times> nat) option"
  redis_cmds :: nat
  clock :: nat

definition http_get :: "world \<Rightarrow> string \<Rightarrow> state \<Rightarrow> (js_error + string) \<times> state" where
  "http_get w u s = (axios_get w (length (requests s)) u, s\<lparr>requests := requests s @ [u]\<rparr>)"

definition console_warn :: "string list \<Rightarrow> state \<Rightarrow> state" where
  "console_warn args s = s\<lparr>console := console s @ [ConsoleWarn args]\<rparr>"

definition console_error :: "string list \<Rightarrow> state \<Rightarrow> state" where
  "console_error args s = s\<lparr>console := console s @ [ConsoleError args]\<rparr>"

text \<open>
  \<^verbatim>\<open>$('iframe').attr('src')\<close>: the attribute of the first selected element;
  \<^verbatim>\<open>undefined\<close> (\<open>None\<close>) when nothing is selected or the first element has no \<^verbatim>\<open>src\<close>.
\<close>

definition attr_src :: "string option list \<Rightarrow> string option" where
  "attr_src sel = (case sel of [] \<Rightarrow> None | e # _ \<Rightarrow> e)"

section \<open>The regular expressions\<close>

subsection \<open>The manifest URL: \<^verbatim>\<open>/(https?:\/\/[^"']+\.m3u8[^"']*)/\<close>\<close>

definition nonquote :: "char \<Rightarrow> bool" where
  "nonquote c = (c \<noteq> CHR 0x22 \<and> c \<noteq> CHR 0x27)"

fun occurs :: "string \<Rightarrow> string \<Rightarrow> bool" where
  "occurs p [] = (p = [])"
| "occurs p (c # cs) = (prefix p (c # cs) \<or> occurs p cs)"

text \<open>
  \<^verbatim>\<open>:\/\/[^"']+\.m3u8[^"']*\<close> at the head of \<open>t\<close>. The greedy \<^verbatim>\<open>[^"']+\<close> takes the whole
  run \<open>r\<close> of characters up to the next quote and gives characters back until
  \<^verbatim>\<open>.m3u8\<close> follows; that needs \<^verbatim>\<open>.m3u8\<close> in \<open>r\<close> after at least one character. The
  greedy \<^verbatim>\<open>[^"']*\<close> then takes the rest of the run, so the text matched is \<^verbatim>\<open>://\<close> and
  all of \<open>r\<close>.
\<close>

definition m3u8_tail :: "string \<Rightarrow> string option" where
  "m3u8_tail t =
     (if prefix ''://'' t then
        (let r = takeWhile nonquote (drop 3 t) in
         if occurs ''.m3u8'' (drop 1 r) then Some (''://'' @ r) else None)
      else None)"

text \<open>
  The whole expression at the head of \<open>t\<close>: \<^verbatim>\<open>http\<close>, then \<^verbatim>\<open>s?\<close> (greedy: with the
  \<^verbatim>\<open>s\<close> first, without it when that fails), then the tail.
\<close>

definition m3u8_at :: "string \<Rightarrow> string option" where
  "m3u8_at t =
     (if prefix ''http'' t then
        (let t1 = drop 4 t in
         case (if prefix ''s'' t1 then m3u8_tail (drop 1 t1) else None) of
           Some m \<Rightarrow> Some (''https'' @ m)
         | None \<Rightarrow> (case m3u8_tail t1 of Some m \<Rightarrow> Some (''http'' @ m) | None \<Rightarrow> None))
      else None)"

text \<open>
  \<^verbatim>\<open>html.match(re)\<close> for this expression (no \<^verbatim>\<open>g\<close> flag): the match at the leftmost
  position that has one; the result is capture group 1, which is the whole match.
  \<open>None\<close> is \<^verbatim>\<open>null\<close>.
\<close>

fun m3u8_match :: "string \<Rightarrow> string option" where
  "m3u8_match [] = None"
| "m3u8_match (c # cs) =
     (case m3u8_at (c # cs) of Some m \<Rightarrow> Some m | None \<Rightarrow> m3u8_match cs)"

subsection \<open>The variants: \<^verbatim>\<open>/#EXT-X-STREAM-INF:.*RESOLUTION=\d+x(\d+).*?\n(.*?\.m3u8)/g\<close>\<close>

text \<open>
  \<^verbatim>\<open>.\<close> matches every character but a line terminator; of the four line terminators
  of JavaScript, line feed and carriage return are characters of the model. \<^verbatim>\<open>\d\<close> is
  an ASCII digit.
\<close>

definition is_lt :: "char \<Rightarrow> bool" where
  "is_lt c = (c = CHR 0x0A \<or> c = CHR 0x0D)"

definition dot :: "char \<Rightarrow> bool" where
  "dot c = (\<not> is_lt c)"

definition is_digit :: "char \<Rightarrow> bool" where
  "is_digit c = (c \<in> set ''0123456789'')"

text \<open>
  \<^verbatim>\<open>(.*?\.m3u8)\<close> at the head of a text: the lazy \<^verbatim>\<open>.*?\<close> grows one character at a
  time (no line terminator) until \<^verbatim>\<open>.m3u8\<close> follows. The result is the text matched.
\<close>

fun upto_m3u8 :: "string \<Rightarrow> string option" where
  "upto_m3u8 [] = None"
| "upto_m3u8 (c # cs) =
     (if prefix ''.m3u8'' (c # cs) then Some ''.m3u8''
      else if dot c then (case upto_m3u8 cs of Some m \<Rightarrow> Some (c # m) | None \<Rightarrow> None)
      else None)"

text \<open>
  \<^verbatim>\<open>RESOLUTION=\d+x(\d+).*?\n(.*?\.m3u8)\<close> at the head of \<open>u\<close>: the two captures and the
  text left after the match. Each greedy \<^verbatim>\<open>\d+\<close> takes the whole run of digits (after
  fewer digits a digit follows, where \<^verbatim>\<open>x\<close>, respectively the same rest of the line, is
  wanted); the lazy \<^verbatim>\<open>.*?\<close> runs to the end of the line, which has to be a line feed.
\<close>

definition resolution_at :: "string \<Rightarrow> (string \<times> string \<times> string) option" where
  "resolution_at u =
     (if prefix ''RESOLUTION='' u then
        (let u1 = drop (length ''RESOLUTION='') u;
             u2 = dropWhile is_digit u1 in
         if takeWhile is_digit u1 \<noteq> [] \<and> prefix ''x'' u2 then
           (let u3 = drop 1 u2;
                h = takeWhile is_digit u3;
                u4 = dropWhile dot (dropWhile is_digit u3) in
            if h \<noteq> [] \<and> prefix [CHR 0x0A] u4 then
              (let u5 = drop 1 u4 in
               case upto_m3u8 u5 of
                 Some m2 \<Rightarrow> Some (h, m2, drop (length m2) u5)
               | None \<Rightarrow> None)
            else None)
         else None)
      else None)"

text \<open>
  The greedy \<^verbatim>\<open>.*\<close> before \<^verbatim>\<open>RESOLUTION=\<close> first takes the rest of the line and then
  gives back one character at a time: \<open>resolution_back k t\<close> tries the positions
  \<open>k\<close>, \<open>k - 1\<close>, ..., \<open>0\<close> of \<open>t\<close> in this order.
\<close>

fun resolution_back :: "nat \<Rightarrow> string \<Rightarrow> (string \<times> string \<times> string) option" where
  "resolution_back 0 t = resolution_at t"
| "resolution_back (Suc k) t =
     (case resolution_at (drop (Suc k) t) of
        Some r \<Rightarrow> Some r
      | None \<Rightarrow> resolution_back k t)"

definition variant_at :: "string \<Rightarrow> (string \<times> string \<times> string) option" where
  "variant_at t =
     (if prefix ''#EXT-X-STREAM-INF:'' t then
        (let t1 = drop (length ''#EXT-X-STREAM-INF:'') t in
         resolution_back (length (takeWhile dot t1)) t1)
      else None)"

lemma upto_m3u8_length: "upto_m3u8 t = Some m \<Longrightarrow> length m \<le> length t \<and> 5 \<le> length m"
proof (induction t arbitrary: m)
  case Nil
  then show ?case by simp
next
  case (Cons c cs)
  show ?case
  proof (cases "prefix ''.m3u8'' (c # cs)")
    case True
    with Cons.prems have "m = ''.m3u8''" by simp
    with prefix_length_le [OF True] show ?thesis by simp
  next
    case False
    with Cons.prems obtain m' where "upto_m3u8 cs = Some m'" "m = c # m'"
      by (auto split: if_splits option.splits)
    with Cons.IH [of m'] show ?thesis by simp
  qed
qed

lemma resolution_at_shorter:
  assumes "resolution_at u = Some (h, m2, rest)"
  shows "length rest < length u"
proof -
  define a where "a = drop (length ''RESOLUTION='') u"
  define b where "b = drop 1 (dropWhile is_digit a)"
  define d where "d = drop 1 (dropWhile dot (dropWhile is_digit b))"
  from assms have p: "prefix ''RESOLUTION='' u"
    by (simp add: resolution_at_def split: if_splits)
  from prefix_length_le [OF p] have "length a < length u"
    by (simp add: a_def)
  moreover have "length b \<le> length a"
    unfolding b_def using length_dropWhile_le [of is_digit a] by simp
  moreover have "length d \<le> length b"
    unfolding d_def
    using length_dropWhile_le [of dot "dropWhile is_digit b"] length_dropWhile_le [of is_digit b]
    by simp
  moreover from assms p have "rest = drop (length m2) d"
    by (auto simp: resolution_at_def Let_def a_def b_def d_def split: if_splits option.splits)
  then have "length rest \<le> length d" by simp
  ultimately show ?thesis by linarith
qed

lemma resolution_back_shorter:
  "resolution_back k t = Some (h, m2, rest) \<Longrightarrow> length rest < Suc (length t)"
proof (induction k)
  case 0
  then show ?case using resolution_at_shorter [of t h m2 rest] by simp
next
  case (Suc k)
  show ?case
  proof (cases "resolution_at (drop (Suc k) t)")
    case None
    with Suc show ?thesis by simp
  next
    case (Some r)
    with Suc.prems have "resolution_at (drop (Suc k) t) = Some (h, m2, rest)" by simp
    from resolution_at_shorter [OF this] show ?thesis by simp
  qed
qed

lemma variant_at_shorter:
  assumes "variant_at t = Some (h, m2, rest)"
  shows "length rest < length t"
proof -
  from assms have p: "prefix ''#EXT-X-STREAM-INF:'' t"
    by (simp add: variant_at_def split: if_splits)
  with assms have
    "resolution_back (length (takeWhile dot (drop (length ''#EXT-X-STREAM-INF:'') t)))
       (drop (length ''#EXT-X-STREAM-INF:'') t) = Some (h, m2, rest)"
    by (simp add: variant_at_def Let_def)
  from resolution_back_shorter [OF this] prefix_length_le [OF p] show ?thesis
    by simp
qed

text \<open>
  The loop \<^verbatim>\<open>while ((match = regex.exec(playlist)) !== null)\<close>, as the list of the pairs
  \<^verbatim>\<open>(match[1], match[2])\<close> in the order the loop sees them. With the \<^verbatim>\<open>g\<close> flag each
  search starts where the last match ended (\<^verbatim>\<open>lastIndex\<close>) and takes the leftmost
  position that has a match; a match is never empty.
\<close>

function variant_matches :: "string \<Rightarrow> (string \<times> string) list" where
  "variant_matches [] = []"
| "variant_matches (c # cs) =
     (case variant_at (c # cs) of
        Some (h, m2, rest) \<Rightarrow> (h, m2) # variant_matches rest
      | None \<Rightarrow> variant_matches cs)"
  by pat_completeness auto
termination
  by (relation "measure length") (auto dest: variant_at_shorter)

section \<open>The failover scraper\<close>

text \<open>
  The \<^verbatim>\<open>try\<close> block of \<^verbatim>\<open>scrapeFailoverStream\<close>. The result is the error thrown, if
  any, the value of the local \<^verbatim>\<open>streams\<close> when the block is left, and the state.
\<close>

definition failoverTry ::
  "world \<Rightarrow> string \<Rightarrow> stream list \<Rightarrow> state \<Rightarrow> js_error option \<times> stream list \<times> state" where
  "failoverTry w cid streams s =
     (let pageUrl = ''https://pelisplushd.net/ver/'' @ cid;
          (res, s1) = http_get w pageUrl s in
      case res of
        Inl err \<Rightarrow> (Some err, streams, s1)
      | Inr page \<Rightarrow>
          (case attr_src (cheerio_iframes w page) of
             None \<Rightarrow> (Some (JsError ''Iframe not found''), streams, s1)
           | Some iframeUrl \<Rightarrow>
               if iframeUrl = [] then (Some (JsError ''Iframe not found''), streams, s1)
               else
                 (let (iframeRes, s2) = http_get w iframeUrl s1 in
                  case iframeRes of
                    Inl err \<Rightarrow> (Some err, streams, s2)
                  | Inr iframeHtml \<Rightarrow>
                      (case m3u8_match iframeHtml of
                         None \<Rightarrow> (Some (JsError ''No .m3u8 link found in failover''), streams, s2)
                       | Some m1 \<Rightarrow>
                           if m1 = [] then
                             (Some (JsError ''No .m3u8 link found in failover''), streams, s2)
                           else
                             (None,
                              streams @ [\<lparr>title = ''Auto (Failover)'', url = m1,
                                          name = ''Failover Stream''\<rparr>],
                              s2)))))"

definition scrapeFailoverStream :: "world \<Rightarrow> string \<Rightarrow> state \<Rightarrow> stream list \<times> state" where
  "scrapeFailoverStream w cid s =
     (case failoverTry w cid [] s of
        (Some err, streams, s') \<Rightarrow>
          (streams, console_warn [''Failover scrape error:'', message err] s')
      | (None, streams, s') \<Rightarrow> (streams, s'))"

section \<open>The primary scraper\<close>

text \<open>
  The \<^verbatim>\<open>while\<close> loop over the matches: each pushes \<^verbatim>\<open>{ quality, link }\<close> (a pair here),
  and \<^verbatim>\<open>new URL(match[2], masterUrl)\<close> may throw, which leaves the loop.
\<close>

fun qualities_loop ::
  "world \<Rightarrow> string \<Rightarrow> (string \<times> string) list \<Rightarrow> (string \<times> string) list \<Rightarrow>
   js_error + (string \<times> string) list" where
  "qualities_loop w masterUrl [] qualities = Inr qualities"
| "qualities_loop w masterUrl ((quality, m2) # ms) qualities =
     (case URL_href w m2 masterUrl of
        Inl err \<Rightarrow> Inl err
      | Inr link \<Rightarrow> qualities_loop w masterUrl ms (qualities @ [(quality, link)]))"

definition quality_stream :: "string \<times> string \<Rightarrow> stream" where
  "quality_stream q = \<lparr>title = fst q @ ''p'', url = snd q, name = ''Cuevana Stream''\<rparr>"

text \<open>
  The branch of the \<^verbatim>\<open>try\<close> block that is taken once the master link is found
  (lines 122 to 151): fetch the manifest, collect the variants, push the streams.
\<close>

definition cuevanaMaster ::
  "world \<Rightarrow> string \<Rightarrow> stream list \<Rightarrow> state \<Rightarrow> js_error option \<times> stream list \<times> state" where
  "cuevanaMaster w masterUrl streams s =
     (let (m3u8Res, s1) = http_get w masterUrl s in
      case m3u8Res of
        Inl err \<Rightarrow> (Some err, streams, s1)
      | Inr playlist \<Rightarrow>
          (case qualities_loop w masterUrl (variant_matches playlist) [] of
             Inl err \<Rightarrow> (Some err, streams, s1)
           | Inr qualities \<Rightarrow>
               if qualities \<noteq> [] then (None, streams @ map quality_stream qualities, s1)
               else
                 (None,
                  streams @ [\<lparr>title = ''Auto (Master)'', url = masterUrl,
                              name = ''Cuevana Stream''\<rparr>],
                  s1)))"

text \<open>The \<^verbatim>\<open>try\<close> block of \<^verbatim>\<open>scrapeCuevanaStream\<close>, as \<open>failoverTry\<close> above.\<close>

definition cuevanaTry ::
  "world \<Rightarrow> string \<Rightarrow> stream list \<Rightarrow> state \<Rightarrow> js_error option \<times> stream list \<times> state" where
  "cuevanaTry w cid streams s =
     (let pageUrl = ''https://cuevana3.me/'' @ cid;
          (res, s1) = http_get w pageUrl s in
      case res of
        Inl err \<Rightarrow> (Some err, streams, s1)
      | Inr page \<Rightarrow>
          (case attr_src (cheerio_iframes w page) of
             None \<Rightarrow> (Some (JsError ''Iframe not found''), streams, s1)
           | Some iframeUrl \<Rightarrow>
               if iframeUrl = [] then (Some (JsError ''Iframe not found''), streams, s1)
               else
                 (let (iframeRes, s2) = http_get w iframeUrl s1 in
                  case iframeRes of
                    Inl err \<Rightarrow> (Some err, streams, s2)
                  | Inr iframeHtml \<Rightarrow>
                      (case m3u8_match iframeHtml of
                         None \<Rightarrow> (Some (JsError ''No .m3u8 master link found''), streams, s2)
                       | Some m1 \<Rightarrow>
                           if m1 = [] then
                             (Some (JsError ''No .m3u8 master link found''), streams, s2)
                           else cuevanaMaster w m1 streams s2))))"

definition scrapeCuevanaStream :: "world \<Rightarrow> string \<Rightarrow> state \<Rightarrow> stream list \<times> state" where
  "scrapeCuevanaStream w cid s =
     (case cuevanaTry w cid [] s of
        (Some err, streams, s') \<Rightarrow>
          (streams, console_warn [''Primary scrape error:'', message err] s')
      | (None, streams, s') \<Rightarrow> (streams, s'))"

section \<open>JSON\<close>

text \<open>
  The values \<^verbatim>\<open>JSON.parse\<close> builds. An object is the list of its properties in the
  order of their creation; a number is kept as the numeral that denotes it (its value
  as a double is not modelled).
\<close>

datatype json =
  JNull
| JBool bool
| JNum string
| JStr string
| JArr "json list"
| JObj "(string \<times> json) list"

definition stream_json :: "stream \<Rightarrow> json" where
  "stream_json st = JObj [(''title'', JStr (title st)), (''url'', JStr (url st)), (''name'', JStr (name st))]"

subsection \<open>\<^verbatim>\<open>JSON.stringify\<close> of the stream list\<close>

text \<open>The hexadecimal digit for a number below 16, in lower case.\<close>

definition hex_digit :: "nat \<Rightarrow> char" where
  "hex_digit n = (if n < 10 then char_of (of_char CHR ''0'' + n) else char_of (of_char CHR ''a'' + (n - 10)))"

text \<open>
  One code unit of a string, as \<^verbatim>\<open>JSON.stringify\<close> writes it: the two-character escapes,
  \<^verbatim>\<open>\u00XX\<close> for the other control characters, every other code unit as it is.
\<close>

definition quote_char :: "char \<Rightarrow> string" where
  "quote_char c =
     (if c = CHR 0x08 then [CHR 0x5C, CHR ''b'']
      else if c = CHR 0x09 then [CHR 0x5C, CHR ''t'']
      else if c = CHR 0x0A then [CHR 0x5C, CHR ''n'']
      else if c = CHR 0x0C then [CHR 0x5C, CHR ''f'']
      else if c = CHR 0x0D then [CHR 0x5C, CHR ''r'']
      else if c = CHR 0x22 then [CHR 0x5C, CHR 0x22]
      else if c = CHR 0x5C then [CHR 0x5C, CHR 0x5C]
      else if (of_char c :: nat) < 0x20 then
        [CHR 0x5C, CHR ''u'', CHR ''0'', CHR ''0'',
         hex_digit ((of_char c :: nat) div 16), hex_digit ((of_char c :: nat) mod 16)]
      else [c])"

definition quote_string :: "string \<Rightarrow> string" where
  "quote_string t = [CHR 0x22] @ concat (map quote_char t) @ [CHR 0x22]"

text \<open>
  \<^verbatim>\<open>JSON.stringify\<close> of a stream object (its three properties are strings, written in
  the order the object literal gives them) and of the array of them, with no white
  space.
\<close>

definition stringify_stream :: "stream \<Rightarrow> string" where
  \<open>stringify_stream st =
     ''{"title":'' @ quote_string (title st) @ '',"url":'' @ quote_string (url st) @
     '',"name":'' @ quote_string (name st) @ ''}''\<close>

fun stringify_elements :: "stream list \<Rightarrow> string" where
  "stringify_elements [] = []"
| "stringify_elements [st] = stringify_stream st"
| "stringify_elements (st # st' # sts) =
     stringify_stream st @ '','' @ stringify_elements (st' # sts)"

definition JSON_stringify :: "stream list \<Rightarrow> string" where
  "JSON_stringify streams = ''['' @ stringify_elements streams @ '']''"

subsection \<open>\<^verbatim>\<open>JSON.parse\<close>\<close>

definition is_ws :: "char \<Rightarrow> bool" where
  "is_ws c = (c = CHR 0x09 \<or> c = CHR 0x0A \<or> c = CHR 0x0D \<or> c = CHR 0x20)"

definition skip_ws :: "string \<Rightarrow> string" where
  "skip_ws t = dropWhile is_ws t"

definition between :: "char \<Rightarrow> char \<Rightarrow> char \<Rightarrow> bool" where
  "between lo hi c = ((of_char lo :: nat) \<le> of_char c \<and> (of_char c :: nat) \<le> of_char hi)"

definition hex_val :: "char \<Rightarrow> nat option" where
  "hex_val c =
     (if between CHR ''0'' CHR ''9'' c then Some (of_char c - of_char CHR ''0'')
      else if between CHR ''a'' CHR ''f'' c then Some (of_char c - of_char CHR ''a'' + 10)
      else if between CHR ''A'' CHR ''F'' c then Some (of_char c - of_char CHR ''A'' + 10)
      else None)"

definition hex4 :: "char \<Rightarrow> char \<Rightarrow> char \<Rightarrow> char \<Rightarrow> nat option" where
  "hex4 a b c d =
     (case (hex_val a, hex_val b, hex_val c, hex_val d) of
        (Some x3, Some x2, Some x1, Some x0) \<Rightarrow> Some (((x3 * 16 + x2) * 16 + x1) * 16 + x0)
      | _ \<Rightarrow> None)"

text \<open>The character after a backslash, for the two-character escapes.\<close>

definition unescape :: "char \<Rightarrow> char option" where
  "unescape e =
     (if e = CHR 0x22 then Some (CHR 0x22)
      else if e = CHR 0x5C then Some (CHR 0x5C)
      else if e = CHR ''/'' then Some (CHR ''/'')
      else if e = CHR ''b'' then Some (CHR 0x08)
      else if e = CHR ''f'' then Some (CHR 0x0C)
      else if e = CHR ''n'' then Some (CHR 0x0A)
      else if e = CHR ''r'' then Some (CHR 0x0D)
      else if e = CHR ''t'' then Some (CHR 0x09)
      else None)"

definition cons_char :: "char \<Rightarrow> (string \<times> string) option \<Rightarrow> (string \<times> string) option" where
  "cons_char c r = (case r of None \<Rightarrow> None | Some (str, rest) \<Rightarrow> Some (c # str, rest))"

text \<open>
  A string after its opening quote: the string denoted and the text after the closing
  quote. A \<^verbatim>\<open>\uXXXX\<close> escape above \<open>00ff\<close> denotes a code unit that is no \<^typ>\<open>char\<close>: such
  a text is outside the model (\<open>None\<close>).
\<close>

fun parse_chars :: "string \<Rightarrow> (string \<times> string) option" where
  "parse_chars [] = None"
| "parse_chars (c # cs) =
     (if c = CHR 0x22 then Some ([], cs)
      else if c = CHR 0x5C then
        (case cs of
           [] \<Rightarrow> None
         | e # es \<Rightarrow>
             if e = CHR ''u'' then
               (case es of
                  x3 # x2 # x1 # x0 # rest \<Rightarrow>
                    (case hex4 x3 x2 x1 x0 of
                       None \<Rightarrow> None
                     | Some n \<Rightarrow> if n < 256 then cons_char (char_of n) (parse_chars rest) else None)
                | _ \<Rightarrow> None)
             else
               (case unescape e of
                  None \<Rightarrow> None
                | Some x \<Rightarrow> cons_char x (parse_chars es)))
      else if (of_char c :: nat) < 0x20 then None
      else cons_char c (parse_chars cs))"

text \<open>
  A number: \<^verbatim>\<open>-? (0 | [1-9][0-9]*) (. [0-9]+)? ([eE] [+-]? [0-9]+)?\<close>. Each part is
  \<open>None\<close> when the text does not have it, else what it read and the rest.
\<close>

definition number_int :: "string \<Rightarrow> (string \<times> string) option" where
  "number_int t =
     (case t of
        [] \<Rightarrow> None
      | c # cs \<Rightarrow>
          if c = CHR ''0'' then Some ([c], cs)
          else if is_digit c then Some (takeWhile is_digit t, dropWhile is_digit t)
          else None)"

definition number_frac :: "string \<Rightarrow> (string \<times> string) option" where
  "number_frac t =
     (if prefix ''.'' t then
        (if takeWhile is_digit (drop 1 t) = [] then None
         else Some (''.'' @ takeWhile is_digit (drop 1 t), dropWhile is_digit (drop 1 t)))
      else Some ([], t))"

definition number_exp :: "string \<Rightarrow> (string \<times> string) option" where
  "number_exp t =
     (if prefix ''e'' t \<or> prefix ''E'' t then
        (let t1 = drop 1 t;
             sgn = (if prefix ''+'' t1 \<or> prefix ''-'' t1 then take 1 t1 else []);
             t2 = drop (length sgn) t1 in
         if takeWhile is_digit t2 = [] then None
         else Some (take 1 t @ sgn @ takeWhile is_digit t2, dropWhile is_digit t2))
      else Some ([], t))"

definition parse_number :: "string \<Rightarrow> (string \<times> string) option" where
  "parse_number t =
     (let sgn = (if prefix ''-'' t then ''-'' else []) in
      case number_int (drop (length sgn) t) of
        None \<Rightarrow> None
      | Some (i, t1) \<Rightarrow>
          (case number_frac t1 of
             None \<Rightarrow> None
           | Some (f, t2) \<Rightarrow>
               (case number_exp t2 of
                  None \<Rightarrow> None
                | Some (e, t3) \<Rightarrow> Some (sgn @ i @ f @ e, t3))))"

text \<open>
  Defining a property: a name the object already has keeps its place and takes the new
  value.
\<close>

definition obj_put :: "string \<Rightarrow> json \<Rightarrow> (string \<times> json) list \<Rightarrow> (string \<times> json) list" where
  "obj_put k v ps =
     (if k \<in> set (map fst ps) then map (\<lambda>p. if fst p = k then (k, v) else p) ps
      else ps @ [(k, v)])"

text \<open>
  The grammar, by recursive descent. The first argument bounds the number of nested
  calls. From one call of \<open>parse_elements\<close> or \<open>parse_members\<close> to the next and from
  \<open>parse_value\<close> into them at least one character is consumed, and they call
  \<open>parse_value\<close> at once, so twice the length of the text is enough, which is what
  \<open>JSON_parse\<close> below gives. \<open>parse_elements\<close> and \<open>parse_members\<close> stand before an
  element, respectively a member, with those read so far.
\<close>

fun parse_value :: "nat \<Rightarrow> string \<Rightarrow> (json \<times> string) option"
  and parse_elements :: "nat \<Rightarrow> string \<Rightarrow> json list \<Rightarrow> (json \<times> string) option"
  and parse_members :: "nat \<Rightarrow> string \<Rightarrow> (string \<times> json) list \<Rightarrow> (json \<times> string) option" where
  "parse_value 0 t = None"
| "parse_value (Suc n) t =
     (case skip_ws t of
        [] \<Rightarrow> None
      | c # cs \<Rightarrow>
          if c = CHR ''{'' then
            (if prefix ''}'' (skip_ws cs) then Some (JObj [], drop 1 (skip_ws cs))
             else parse_members n (skip_ws cs) [])
          else if c = CHR ''['' then
            (if prefix '']'' (skip_ws cs) then Some (JArr [], drop 1 (skip_ws cs))
             else parse_elements n cs [])
          else if c = CHR 0x22 then
            (case parse_chars cs of None \<Rightarrow> None | Some (str, rest) \<Rightarrow> Some (JStr str, rest))
          else if prefix ''true'' (c # cs) then Some (JBool True, drop 4 (c # cs))
          else if prefix ''false'' (c # cs) then Some (JBool False, drop 5 (c # cs))
          else if prefix ''null'' (c # cs) then Some (JNull, drop 4 (c # cs))
          else
            (case parse_number (c # cs) of
               None \<Rightarrow> None
             | Some (num, rest) \<Rightarrow> Some (JNum num, rest)))"
| "parse_elements 0 t acc = None"
| "parse_elements (Suc n) t acc =
     (case parse_value n t of
        None \<Rightarrow> None
      | Some (v, rest) \<Rightarrow>
          (case skip_ws rest of
             [] \<Rightarrow> None
           | c # cs \<Rightarrow>
               if c = CHR '','' then parse_elements n cs (acc @ [v])
               else if c = CHR '']'' then Some (JArr (acc @ [v]), cs)
               else None))"
| "parse_members 0 t acc = None"
| "parse_members (Suc n) t acc =
     (case skip_ws t of
        [] \<Rightarrow> None
      | q # qs \<Rightarrow>
          if q = CHR 0x22 then
            (case parse_chars qs of
               None \<Rightarrow> None
             | Some (k, rest) \<Rightarrow>
                 (case skip_ws rest of
                    [] \<Rightarrow> None
                  | c # cs \<Rightarrow>
                      if c = CHR '':'' then
                        (case parse_value n cs of
                           None \<Rightarrow> None
                         | Some (v, rest') \<Rightarrow>
                             (case skip_ws rest' of
                                [] \<Rightarrow> None
                              | d # ds \<Rightarrow>
                                  if d = CHR '','' then parse_members n ds (obj_put k v acc)
                                  else if d = CHR ''}'' then Some (JObj (obj_put k v acc), ds)
                                  else None))
                      else None))
          else None)"

text \<open>\<^verbatim>\<open>JSON.parse(t)\<close>: one value, with nothing but white space after it.\<close>

definition JSON_parse :: "string \<Rightarrow> json option" where
  "JSON_parse t =
     (case parse_value (2 * length t + 1) t of
        None \<Rightarrow> None
      | Some (v, rest) \<Rightarrow> if skip_ws rest = [] then Some v else None)"

section \<open>Redis\<close>

text \<open>
  A command is counted, and rejects when the environment says so; a rejected \<^verbatim>\<open>set\<close>
  is taken to have written nothing. \<^verbatim>\<open>get\<close> gives \<^verbatim>\<open>null\<close> (\<open>None\<close>) for a key that is
  absent or has expired; \<^verbatim>\<open>set(key, value, 'EX', ttl)\<close> stores the value to expire
  \<open>ttl\<close> seconds from now.
\<close>

definition redis_lookup :: "state \<Rightarrow> string \<Rightarrow> string option" where
  "redis_lookup s k =
     (case redis_db s k of
        None \<Rightarrow> None
      | Some (v, expires) \<Rightarrow> if clock s < expires then Some v else None)"

definition redis_get :: "world \<Rightarrow> string \<Rightarrow> state \<Rightarrow> (js_error + string option) \<times> state" where
  "redis_get w k s =
     (let s' = s\<lparr>redis_cmds := redis_cmds s + 1\<rparr> in
      case redis_fault w (redis_cmds s) of
        Some err \<Rightarrow> (Inl err, s')
      | None \<Rightarrow> (Inr (redis_lookup s k), s'))"

definition redis_set_ex ::
  "world \<Rightarrow> string \<Rightarrow> string \<Rightarrow> nat \<Rightarrow> state \<Rightarrow> js_error option \<times> state" where
  "redis_set_ex w k v ttl s =
     (let s' = s\<lparr>redis_cmds := redis_cmds s + 1\<rparr> in
      case redis_fault w (redis_cmds s) of
        Some err \<Rightarrow> (Some err, s')
      | None \<Rightarrow> (None, s'\<lparr>redis_db := (redis_db s)(k \<mapsto> (v, clock s + ttl))\<rparr>))"

section \<open>The stream handler\<close>

text \<open>
  Lines 87 to 93: the primary site first, the failover site when that gave no streams.
\<close>

definition scrapeWithFailover :: "world \<Rightarrow> string \<Rightarrow> state \<Rightarrow> stream list \<times> state" where
  "scrapeWithFailover w cid s =
     (let (streams, s1) = scrapeCuevanaStream w cid s in
      if streams = [] then
        scrapeFailoverStream w cid
          (console_warn [''Primary site failed, trying failover for '' @ cid] s1)
      else (streams, s1))"

text \<open>
  The \<^verbatim>\<open>try\<close> block of the handler (lines 85 to 97): the error thrown, if any, the
  value of \<^verbatim>\<open>streams\<close> when the block is left, and the state. Only \<^verbatim>\<open>redis.set\<close> can
  throw in it, after \<^verbatim>\<open>streams\<close> is assigned.
\<close>

definition handlerTry ::
  "world \<Rightarrow> string \<Rightarrow> string \<Rightarrow> state \<Rightarrow> js_error option \<times> stream list \<times> state" where
  "handlerTry w cid cacheKey s =
     (let (streams, s1) = scrapeWithFailover w cid s in
      if streams \<noteq> [] then
        (case redis_set_ex w cacheKey (JSON_stringify streams) (6 * 3600) s1 of
           (Some err, s2) \<Rightarrow> (Some err, streams, s2)
         | (None, s2) \<Rightarrow> (None, streams, s2))
      else (None, streams, s1))"

text \<open>
  The part of the handler after a cache miss: the \<^verbatim>\<open>try\<close> block, its \<^verbatim>\<open>catch\<close>, and
  \<^verbatim>\<open>return { streams }\<close>.
\<close>

definition handlerMiss :: "world \<Rightarrow> string \<Rightarrow> string \<Rightarrow> state \<Rightarrow> stream list \<times> state" where
  "handlerMiss w cid cacheKey s =
     (case handlerTry w cid cacheKey s of
        (Some err, streams, s') \<Rightarrow>
          (streams, console_error [''Stream scrape failed:'', message err] s')
      | (None, streams, s') \<Rightarrow> (streams, s'))"

definition response :: "json \<Rightarrow> json" where
  "response v = JObj [(''streams'', v)]"

text \<open>
  The handler given to \<^verbatim>\<open>defineStreamHandler\<close>. \<open>Inl\<close> is a rejected promise: \<^verbatim>\<open>redis.get\<close>
  and \<^verbatim>\<open>JSON.parse\<close> stand outside the \<^verbatim>\<open>try\<close> block. \<^verbatim>\<open>if (cached)\<close> takes a string
  that is not empty; \<^verbatim>\<open>null\<close> and the empty string are falsy.
\<close>

definition streamHandler :: "world \<Rightarrow> string \<Rightarrow> state \<Rightarrow> (js_error + json) \<times> state" where
  "streamHandler w cid s =
     (let cacheKey = ''stream:'' @ cid;
          (got, s1) = redis_get w cacheKey s in
      case got of
        Inl err \<Rightarrow> (Inl err, s1)
      | Inr cached \<Rightarrow>
          (case (if cached = Some [] then None else cached) of
             Some hit \<Rightarrow>
               (case JSON_parse hit of
                  None \<Rightarrow> (Inl (JSON_syntax_error w hit), s1)
                | Some v \<Rightarrow> (Inr (response v), s1))
           | None \<Rightarrow>
               (case handlerMiss w cid cacheKey s1 of
                  (streams, s2) \<Rightarrow> (Inr (response (JArr (map stream_json streams))), s2))))"

section \<open>The stages of a scraper\<close>

text \<open>
  The stage failures the specification names, read off the environment: a scraper
  sends its requests one after the other, so the \<open>i\<close>-th of them is answered by
  \<open>axios_get w (length (requests s) + i)\<close>. For the primary scraper: the page cannot be
  fetched; the page gives no inline frame source; the frame cannot be fetched; the
  frame has no manifest URL; the manifest cannot be fetched; a reference of the
  manifest is rejected by \<^verbatim>\<open>new URL\<close>.
\<close>

definition resolves :: "world \<Rightarrow> string \<Rightarrow> string \<times> string \<Rightarrow> bool" where
  "resolves w masterUrl m = (\<not> isl (URL_href w (snd m) masterUrl))"

text \<open>The pair the loop pushes for a match: the same height, the reference resolved.\<close>

definition resolved :: "world \<Rightarrow> string \<Rightarrow> string \<times> string \<Rightarrow> string \<times> string \<Rightarrow> bool" where
  "resolved w masterUrl m q = (fst q = fst m \<and> URL_href w (snd m) masterUrl = Inr (snd q))"

definition primary_stage_failure :: "world \<Rightarrow> string \<Rightarrow> state \<Rightarrow> bool" where
  "primary_stage_failure w cid s =
     (case axios_get w (length (requests s)) (''https://cuevana3.me/'' @ cid) of
        Inl e \<Rightarrow> True
      | Inr page \<Rightarrow>
          (case attr_src (cheerio_iframes w page) of
             None \<Rightarrow> True
           | Some iframeUrl \<Rightarrow>
               iframeUrl = [] \<or>
               (case axios_get w (length (requests s) + 1) iframeUrl of
                  Inl e \<Rightarrow> True
                | Inr iframeHtml \<Rightarrow>
                    (case m3u8_match iframeHtml of
                       None \<Rightarrow> True
                     | Some masterUrl \<Rightarrow>
                         (case axios_get w (length (requests s) + 2) masterUrl of
                            Inl e \<Rightarrow> True
                          | Inr playlist \<Rightarrow>
                              \<not> list_all (resolves w masterUrl) (variant_matches playlist))))))"

text \<open>For the failover scraper, the first four of them.\<close>

definition failover_stage_failure :: "world \<Rightarrow> string \<Rightarrow> state \<Rightarrow> bool" where
  "failover_stage_failure w cid s =
     (case axios_get w (length (requests s)) (''https://pelisplushd.net/ver/'' @ cid) of
        Inl e \<Rightarrow> True
      | Inr page \<Rightarrow>
          (case attr_src (cheerio_iframes w page) of
             None \<Rightarrow> True
           | Some iframeUrl \<Rightarrow>
               iframeUrl = [] \<or>
               (case axios_get w (length (requests s) + 1) iframeUrl of
                  Inl e \<Rightarrow> True
                | Inr iframeHtml \<Rightarrow> m3u8_match iframeHtml = None)))"

text \<open>
  A stream made from a match of the variant expression: titled by the second number of
  \<^verbatim>\<open>RESOLUTION=\<close>, with the reference resolved against the master URL.
\<close>

definition variant_stream :: "world \<Rightarrow> string \<Rightarrow> string \<times> string \<Rightarrow> stream \<Rightarrow> bool" where
  "variant_stream w masterUrl m st =
     (title st = fst m @ ''p'' \<and> URL_href w (snd m) masterUrl = Inr (url st) \<and>
      name st = ''Cuevana Stream'')"

text \<open>
  What the extraction of the frame source does in a \<^verbatim>\<open>try\<close> block \<open>body\<close> (of the scraper
  whose pages are at \<open>base\<close>), for the page fetched: with no inline frame, or a first
  inline frame whose \<^verbatim>\<open>src\<close> is missing or empty, the block throws
  \<^verbatim>\<open>Iframe not found\<close> having sent the one request for the page; otherwise its next
  request is for the \<^verbatim>\<open>src\<close> of the first inline frame.
\<close>

definition frame_step ::
  "(world \<Rightarrow> string \<Rightarrow> stream list \<Rightarrow> state \<Rightarrow> js_error option \<times> stream list \<times> state) \<Rightarrow>
   string \<Rightarrow> world \<Rightarrow> string \<Rightarrow> state \<Rightarrow> string \<Rightarrow> bool" where
  "frame_step body base w cid s page =
     (case cheerio_iframes w page of
        [] \<Rightarrow>
          body w cid [] s =
            (Some (JsError ''Iframe not found''), [], s\<lparr>requests := requests s @ [base @ cid]\<rparr>)
      | None # others \<Rightarrow>
          body w cid [] s =
            (Some (JsError ''Iframe not found''), [], s\<lparr>requests := requests s @ [base @ cid]\<rparr>)
      | Some src # others \<Rightarrow>
          if src = [] then
            body w cid [] s =
              (Some (JsError ''Iframe not found''), [],
               s\<lparr>requests := requests s @ [base @ cid]\<rparr>)
          else
            prefix (requests s @ [base @ cid, src]) (requests (snd (snd (body w cid [] s)))))"

section \<open>Concrete environments\<close>

text \<open>
  \<open>site pages frames hrefs\<close> is an environment given by tables: the pages that can be
  fetched (every other request fails), the inline frames of a page, and the references
  that \<^verbatim>\<open>new URL\<close> resolves (it throws on every other). Redis answers every command.
\<close>

definition site ::
  "(string \<times> string) list \<Rightarrow> (string \<times> string option list) list \<Rightarrow>
   ((string \<times> string) \<times> string) list \<Rightarrow> world" where
  "site pages frames hrefs =
     \<lparr>axios_get = (\<lambda>n u.
        case map_of pages u of Some body \<Rightarrow> Inr body | None \<Rightarrow> Inl (JsError ''Network Error'')),
      cheerio_iframes = (\<lambda>html. case map_of frames html of Some fs \<Rightarrow> fs | None \<Rightarrow> []),
      URL_href = (\<lambda>r b.
        case map_of hrefs (r, b) of Some h \<Rightarrow> Inr h | None \<Rightarrow> Inl (JsError ''Invalid URL'')),
      redis_fault = (\<lambda>n. None),
      JSON_syntax_error = (\<lambda>t. JsError ''Unexpected token'')\<rparr>"

definition start :: state where
  "start = \<lparr>requests = [], console = [], redis_db = (\<lambda>k. None), redis_cmds = 0, clock = 1000\<rparr>"

text \<open>
  A title on the primary site whose master manifest declares two variants, with
  relative references.
\<close>

definition page_7 :: string where
  \<open>page_7 = ''<iframe src="https://p.example/e/7"></iframe>''\<close>

definition embed_7 :: string where
  \<open>embed_7 = ''<script>play("https://example.com/a/master.m3u8")</script>''\<close>

definition playlist_7 :: string where
  "playlist_7 =
     ''#EXTM3U'' @ [CHR 0x0A] @
     ''#EXT-X-STREAM-INF:BANDWIDTH=2000000,RESOLUTION=1280x720'' @ [CHR 0x0A] @
     ''720p.m3u8'' @ [CHR 0x0A] @
     ''#EXT-X-STREAM-INF:BANDWIDTH=800000,RESOLUTION=640x360'' @ [CHR 0x0A] @
     ''360p.m3u8'' @ [CHR 0x0A]"

definition world_variants :: world where
  "world_variants =
     site
       [(''https://cuevana3.me/film-7'', page_7),
        (''https://p.example/e/7'', embed_7),
        (''https://example.com/a/master.m3u8'', playlist_7)]
       [(page_7, [Some ''https://p.example/e/7''])]
       [((''720p.m3u8'', ''https://example.com/a/master.m3u8''), ''https://example.com/a/720p.m3u8''),
        ((''360p.m3u8'', ''https://example.com/a/master.m3u8''), ''https://example.com/a/360p.m3u8'')]"

text \<open>
  A title that only the failover site has: the request to the primary site fails.
\<close>

definition page_42 :: string where
  \<open>page_42 = ''<iframe src="https://q.example/e/42"></iframe>''\<close>

definition embed_42 :: string where
  \<open>embed_42 = ''<video src="https://cdn.example/v/42.m3u8?k=1"></video>''\<close>

definition world_failover :: world where
  "world_failover =
     site
       [(''https://pelisplushd.net/ver/movie-42'', page_42),
        (''https://q.example/e/42'', embed_42)]
       [(page_42, [Some ''https://q.example/e/42''])]
       []"

text \<open>
  A title whose master manifest declares a variant by a reference that is no URL: the
  host has a space in it, and \<^verbatim>\<open>new URL\<close> throws.
\<close>

definition page_3 :: string where
  \<open>page_3 = ''<iframe src="https://p.example/e/3"></iframe>''\<close>

definition embed_3 :: string where
  \<open>embed_3 = ''<script>play("https://example.com/b/master.m3u8")</script>''\<close>

definition playlist_3 :: string where
  "playlist_3 =
     ''#EXTM3U'' @ [CHR 0x0A] @
     ''#EXT-X-STREAM-INF:BANDWIDTH=2000000,RESOLUTION=1280x720'' @ [CHR 0x0A] @
     ''http://a b/720.m3u8'' @ [CHR 0x0A]"

definition world_badref :: world where
  "world_badref =
     site
       [(''https://cuevana3.me/bad-3'', page_3),
        (''https://p.example/e/3'', embed_3),
        (''https://example.com/b/master.m3u8'', playlist_3)]
       [(page_3, [Some ''https://p.example/e/3''])]
       []"

text \<open>A title whose frame names a master manifest that cannot be fetched.\<close>

definition page_6 :: string where
  \<open>page_6 = ''<iframe src="https://p.example/e/6"></iframe>''\<close>

definition embed_6 :: string where
  \<open>embed_6 = ''<script>play("https://example.com/c/master.m3u8")</script>''\<close>

definition world_gone :: world where
  "world_gone =
     site
       [(''https://cuevana3.me/gone-6'', page_6),
        (''https://p.example/e/6'', embed_6)]
       [(page_6, [Some ''https://p.example/e/6''])]
       []"





text \<open>
  A title whose page has one inline frame, which has no \<^verbatim>\<open>src\<close> attribute (the player
  is loaded from \<^verbatim>\<open>data-src\<close> by a script).
\<close>

definition page_8 :: string where
  \<open>page_8 = ''<iframe data-src="https://p.example/e/8"></iframe>''\<close>

definition world_nosrc :: world where
  "world_nosrc = site [(''https://cuevana3.me/lazy-8'', page_8)] [(page_8, [None])] []"

text \<open>The first title again, with a Redis that rejects the first command sent to it.\<close>

definition world_redis_down :: world where
  "world_redis_down =
     world_variants
       \<lparr>redis_fault := (\<lambda>n. if n = 0 then Some (JsError ''Connection is closed.'') else None)\<rparr>"

text \<open>The same, with a Redis that answers the first command and rejects the second.\<close>

definition world_redis_readonly :: world where
  "world_redis_readonly =
     world_variants
       \<lparr>redis_fault := (\<lambda>n. if n = 1 then Some (JsError ''Connection is closed.'') else None)\<rparr>"


section \<open>Properties\<close>

subsection \<open>What the regular expressions give\<close>

lemma m3u8_tail_prefix: "m3u8_tail t = Some m \<Longrightarrow> prefix ''://'' m"
  by (auto simp: m3u8_tail_def Let_def split: if_splits)

lemma m3u8_at_http:
  assumes "m3u8_at t = Some m"
  shows "prefix ''http://'' m \<or> prefix ''https://'' m"
proof -
  from assms obtain m' where m': "prefix ''://'' m'" "m = ''https'' @ m' \<or> m = ''http'' @ m'"
    by (auto simp: m3u8_at_def Let_def split: if_splits option.splits dest: m3u8_tail_prefix)
  from m'(1) obtain r where "m' = ''://'' @ r"
    by (auto simp: prefix_def)
  with m'(2) show ?thesis by auto
qed

lemma m3u8_match_http:
  "m3u8_match t = Some m \<Longrightarrow> prefix ''http://'' m \<or> prefix ''https://'' m"
proof (induction t)
  case Nil
  then show ?case by simp
next
  case (Cons c cs)
  then show ?case
    by (cases "m3u8_at (c # cs)") (auto dest: m3u8_at_http)
qed

lemma m3u8_match_nonempty: "m3u8_match t = Some m \<Longrightarrow> m \<noteq> []"
  using m3u8_match_http [of t m] by auto

text \<open>
  A match of the variant expression: the height captured is a number, and the reference
  is a piece of one line that ends in \<^verbatim>\<open>.m3u8\<close>.
\<close>

lemma upto_m3u8_shape:
  "upto_m3u8 t = Some m \<Longrightarrow> suffix ''.m3u8'' m \<and> list_all dot m"
proof (induction t arbitrary: m)
  case Nil
  then show ?case by simp
next
  case (Cons c cs)
  show ?case
  proof (cases "prefix ''.m3u8'' (c # cs)")
    case True
    with Cons.prems have "m = ''.m3u8''" by simp
    then show ?thesis by (simp add: dot_def is_lt_def)
  next
    case False
    with Cons.prems obtain m' where m': "dot c" "upto_m3u8 cs = Some m'" "m = c # m'"
      by (auto split: if_splits option.splits)
    with Cons.IH [of m'] show ?thesis
      by (simp add: suffix_Cons)
  qed
qed

lemma resolution_at_shape:
  assumes "resolution_at u = Some (h, m2, rest)"
  shows "h \<noteq> [] \<and> list_all is_digit h \<and> suffix ''.m3u8'' m2 \<and> list_all dot m2"
proof -
  from assms obtain t t' where
    h: "h = takeWhile is_digit t" "h \<noteq> []" and m2: "upto_m3u8 t' = Some m2"
    by (auto simp: resolution_at_def Let_def split: if_splits option.splits)
  from h(1) have "list_all is_digit h"
    by (auto simp: list_all_iff dest: set_takeWhileD)
  with h(2) upto_m3u8_shape [OF m2] show ?thesis by simp
qed

lemma resolution_back_shape:
  "resolution_back k t = Some (h, m2, rest) \<Longrightarrow>
   h \<noteq> [] \<and> list_all is_digit h \<and> suffix ''.m3u8'' m2 \<and> list_all dot m2"
proof (induction k)
  case 0
  then show ?case using resolution_at_shape [of t h m2 rest] by simp
next
  case (Suc k)
  show ?case
  proof (cases "resolution_at (drop (Suc k) t)")
    case None
    with Suc show ?thesis by simp
  next
    case (Some r)
    with Suc.prems have "resolution_at (drop (Suc k) t) = Some (h, m2, rest)" by simp
    then show ?thesis by (rule resolution_at_shape)
  qed
qed

lemma variant_at_shape:
  assumes "variant_at t = Some (h, m2, rest)"
  shows "h \<noteq> [] \<and> list_all is_digit h \<and> suffix ''.m3u8'' m2 \<and> list_all dot m2"
proof -
  from assms obtain k t1 where "resolution_back k t1 = Some (h, m2, rest)"
    by (auto simp: variant_at_def Let_def split: if_splits)
  then show ?thesis by (rule resolution_back_shape)
qed

lemma variant_matches_shape:
  "m \<in> set (variant_matches t) \<Longrightarrow>
   fst m \<noteq> [] \<and> list_all is_digit (fst m) \<and> suffix ''.m3u8'' (snd m) \<and> list_all dot (snd m)"
proof (induction t rule: variant_matches.induct)
  case 1
  then show ?case by simp
next
  case (2 c cs)
  show ?case
  proof (cases "variant_at (c # cs)")
    case None
    with 2 show ?thesis by simp
  next
    case (Some r)
    obtain h m2 rest where r: "r = (h, m2, rest)" by (cases r)
    with Some have at: "variant_at (c # cs) = Some (h, m2, rest)" by simp
    from "2.prems" at have "m = (h, m2) \<or> m \<in> set (variant_matches rest)"
      by simp
    then show ?thesis
    proof
      assume "m = (h, m2)"
      with variant_at_shape [OF at] show ?thesis by simp
    next
      assume "m \<in> set (variant_matches rest)"
      with "2.IH"(2) [OF at refl refl] show ?thesis by simp
    qed
  qed
qed

subsection \<open>The two \<^verbatim>\<open>try\<close> blocks\<close>

lemma failoverTry_result:
  assumes "failoverTry w cid streams s = (thrown, out, s')"
  shows "(thrown \<noteq> None \<and> out = streams) \<or>
         (thrown = None \<and>
          (\<exists>m1. (prefix ''http://'' m1 \<or> prefix ''https://'' m1) \<and>
             out = streams @ [\<lparr>title = ''Auto (Failover)'', url = m1, name = ''Failover Stream''\<rparr>]))"
  using assms
  by (auto simp: failoverTry_def Let_def
      split: prod.splits sum.splits option.splits if_splits dest: m3u8_match_http)

text \<open>When the loop ends without a throw, it has resolved every reference, in order.\<close>

lemma qualities_loop_Inr:
  "qualities_loop w masterUrl ms acc = Inr qs \<Longrightarrow>
   \<exists>qs'. qs = acc @ qs' \<and> list_all2 (resolved w masterUrl) ms qs'"
proof (induction ms arbitrary: acc)
  case Nil
  then show ?case by simp
next
  case (Cons m ms)
  obtain h m2 where m: "m = (h, m2)" by (cases m)
  from Cons.prems m obtain link where
    link: "URL_href w m2 masterUrl = Inr link" and
    rest: "qualities_loop w masterUrl ms (acc @ [(h, link)]) = Inr qs"
    by (auto split: sum.splits)
  from Cons.IH [OF rest] obtain qs' where
    "qs = (acc @ [(h, link)]) @ qs'" "list_all2 (resolved w masterUrl) ms qs'"
    by blast
  moreover from m link have "resolved w masterUrl m (h, link)"
    by (simp add: resolved_def)
  ultimately show ?case
    by (intro exI [of _ "(h, link) # qs'"]) simp
qed

lemma cuevanaMaster_result:
  assumes "cuevanaMaster w masterUrl streams s = (thrown, out, s')"
  shows "s' = snd (http_get w masterUrl s) \<and>
         ((thrown \<noteq> None \<and> out = streams) \<or>
          (thrown = None \<and>
           (\<exists>playlist qs.
              fst (http_get w masterUrl s) = Inr playlist \<and>
              qualities_loop w masterUrl (variant_matches playlist) [] = Inr qs \<and>
              out = streams @
                (if qs \<noteq> [] then map quality_stream qs
                 else [\<lparr>title = ''Auto (Master)'', url = masterUrl, name = ''Cuevana Stream''\<rparr>]))))"
  using assms
  by (auto simp: cuevanaMaster_def Let_def split: prod.splits sum.splits if_splits)

lemma cuevanaTry_throws:
  "cuevanaTry w cid streams s = (Some err, out, s') \<Longrightarrow> out = streams"
  by (auto simp: cuevanaTry_def Let_def
      split: prod.splits sum.splits option.splits if_splits dest: cuevanaMaster_result)

lemma failoverTry_throws:
  "failoverTry w cid streams s = (Some err, out, s') \<Longrightarrow> out = streams"
  by (auto dest: failoverTry_result)

lemma cuevanaTry_result:
  assumes "cuevanaTry w cid streams s = (thrown, out, s')"
  shows "(thrown \<noteq> None \<and> out = streams) \<or>
         (thrown = None \<and>
          (\<exists>masterUrl playlist qs.
             (prefix ''http://'' masterUrl \<or> prefix ''https://'' masterUrl) \<and>
             qualities_loop w masterUrl (variant_matches playlist) [] = Inr qs \<and>
             out = streams @
               (if qs \<noteq> [] then map quality_stream qs
                else [\<lparr>title = ''Auto (Master)'', url = masterUrl, name = ''Cuevana Stream''\<rparr>])))"
proof (cases thrown)
  case (Some err)
  with assms cuevanaTry_throws show ?thesis by auto
next
  case None
  with assms obtain m1 s2 where
    m1: "prefix ''http://'' m1 \<or> prefix ''https://'' m1" and
    master: "cuevanaMaster w m1 streams s2 = (None, out, s')"
    by (auto simp: cuevanaTry_def Let_def
        split: prod.splits sum.splits option.splits if_splits dest: m3u8_match_http)
  from cuevanaMaster_result [OF master] m1 None show ?thesis
    by blast
qed

lemma scrapeCuevanaStream_result:
  "fst (scrapeCuevanaStream w cid s) = [] \<or>
   (\<exists>masterUrl playlist qs.
      (prefix ''http://'' masterUrl \<or> prefix ''https://'' masterUrl) \<and>
      qualities_loop w masterUrl (variant_matches playlist) [] = Inr qs \<and>
      fst (scrapeCuevanaStream w cid s) =
        (if qs \<noteq> [] then map quality_stream qs
         else [\<lparr>title = ''Auto (Master)'', url = masterUrl, name = ''Cuevana Stream''\<rparr>]))"
proof -
  obtain thrown out s' where t: "cuevanaTry w cid [] s = (thrown, out, s')"
    by (cases "cuevanaTry w cid [] s")
  from cuevanaTry_result [OF t] show ?thesis
  proof
    assume "thrown \<noteq> None \<and> out = []"
    with t show ?thesis by (auto simp: scrapeCuevanaStream_def)
  next
    assume "thrown = None \<and>
      (\<exists>masterUrl playlist qs.
         (prefix ''http://'' masterUrl \<or> prefix ''https://'' masterUrl) \<and>
         qualities_loop w masterUrl (variant_matches playlist) [] = Inr qs \<and>
         out = [] @
           (if qs \<noteq> [] then map quality_stream qs
            else [\<lparr>title = ''Auto (Master)'', url = masterUrl, name = ''Cuevana Stream''\<rparr>]))"
    with t show ?thesis
      by (simp add: scrapeCuevanaStream_def)
  qed
qed

lemma scrapeFailoverStream_result:
  "fst (scrapeFailoverStream w cid s) = [] \<or>
   (\<exists>m1. (prefix ''http://'' m1 \<or> prefix ''https://'' m1) \<and>
      fst (scrapeFailoverStream w cid s) =
        [\<lparr>title = ''Auto (Failover)'', url = m1, name = ''Failover Stream''\<rparr>])"
proof -
  obtain thrown out s' where t: "failoverTry w cid [] s = (thrown, out, s')"
    by (cases "failoverTry w cid [] s")
  from failoverTry_result [OF t] t show ?thesis
    by (auto simp: scrapeFailoverStream_def)
qed

lemma scrapeCuevanaStream_name:
  "st \<in> set (fst (scrapeCuevanaStream w cid s)) \<Longrightarrow> name st = ''Cuevana Stream''"
  using scrapeCuevanaStream_result [of w cid s]
  by (auto simp: quality_stream_def split: if_splits)

lemma scrapeFailoverStream_name:
  "st \<in> set (fst (scrapeFailoverStream w cid s)) \<Longrightarrow>
   name st = ''Failover Stream'' \<and> title st = ''Auto (Failover)''"
  using scrapeFailoverStream_result [of w cid s] by auto

lemma scrapeWithFailover_cases:
  "(fst (scrapeCuevanaStream w cid s) \<noteq> [] \<and>
    scrapeWithFailover w cid s = scrapeCuevanaStream w cid s) \<or>
   (fst (scrapeCuevanaStream w cid s) = [] \<and>
    scrapeWithFailover w cid s =
      scrapeFailoverStream w cid
        (console_warn [''Primary site failed, trying failover for '' @ cid]
           (snd (scrapeCuevanaStream w cid s))))"
  by (simp add: scrapeWithFailover_def split: prod.splits)

lemma handlerMiss_streams: "fst (handlerMiss w cid k s) = fst (scrapeWithFailover w cid s)"
  by (simp add: handlerMiss_def handlerTry_def Let_def split: prod.splits option.splits)

subsection \<open>Stage by stage\<close>

lemma qualities_loop_isl:
  "isl (qualities_loop w masterUrl ms acc) \<longleftrightarrow> \<not> list_all (resolves w masterUrl) ms"
proof (induction ms arbitrary: acc)
  case Nil
  then show ?case by simp
next
  case (Cons m ms)
  obtain h m2 where m: "m = (h, m2)" by (cases m)
  show ?case
  proof (cases "URL_href w m2 masterUrl")
    case (Inl err)
    with m show ?thesis by (simp add: resolves_def)
  next
    case (Inr link)
    with m Cons.IH [of "acc @ [(h, link)]"] show ?thesis by (simp add: resolves_def)
  qed
qed

lemma cuevanaMaster_throws_iff:
  "fst (cuevanaMaster w masterUrl streams s) \<noteq> None \<longleftrightarrow>
   (case axios_get w (length (requests s)) masterUrl of
      Inl e \<Rightarrow> True
    | Inr playlist \<Rightarrow> \<not> list_all (resolves w masterUrl) (variant_matches playlist))"
proof (cases "axios_get w (length (requests s)) masterUrl")
  case (Inl e)
  then show ?thesis by (simp add: cuevanaMaster_def http_get_def)
next
  case (Inr playlist)
  show ?thesis
  proof (cases "qualities_loop w masterUrl (variant_matches playlist) []")
    case (Inl err)
    with Inr qualities_loop_isl [of w masterUrl "variant_matches playlist" "[]"]
    show ?thesis by (simp add: cuevanaMaster_def http_get_def)
  next
    case Inr': (Inr qs)
    with Inr qualities_loop_isl [of w masterUrl "variant_matches playlist" "[]"]
    show ?thesis by (simp add: cuevanaMaster_def http_get_def)
  qed
qed

lemma cuevanaTry_throws_iff:
  "fst (cuevanaTry w cid streams s) \<noteq> None \<longleftrightarrow> primary_stage_failure w cid s"
proof -
  have master: "fst (cuevanaMaster w m streams
        (s\<lparr>requests := requests s @ [''https://cuevana3.me/'' @ cid, u]\<rparr>)) \<noteq> None \<longleftrightarrow>
      (case axios_get w (length (requests s) + 2) m of
         Inl e \<Rightarrow> True
       | Inr playlist \<Rightarrow> \<not> list_all (resolves w m) (variant_matches playlist))" for m u
    using cuevanaMaster_throws_iff
      [of w m streams "s\<lparr>requests := requests s @ [''https://cuevana3.me/'' @ cid, u]\<rparr>"]
    by simp
  show ?thesis
    unfolding cuevanaTry_def primary_stage_failure_def http_get_def Let_def
    using master
    by (auto split: sum.splits option.splits dest: m3u8_match_nonempty)
qed

lemma failoverTry_throws_iff:
  "fst (failoverTry w cid streams s) \<noteq> None \<longleftrightarrow> failover_stage_failure w cid s"
  unfolding failoverTry_def failover_stage_failure_def http_get_def Let_def
  by (auto split: sum.splits option.splits dest: m3u8_match_nonempty)

subsection \<open>The requests a scraper sends\<close>

lemma requests_console_warn [simp]: "requests (console_warn a s) = requests s"
  by (simp add: console_warn_def)

lemma requests_console_error [simp]: "requests (console_error a s) = requests s"
  by (simp add: console_error_def)

lemma cuevanaMaster_requests:
  "requests (snd (snd (cuevanaMaster w m streams s))) = requests s @ [m]"
  by (simp add: cuevanaMaster_def http_get_def Let_def split: sum.splits)

lemma cuevanaTry_requests:
  "prefix (requests s @ [''https://cuevana3.me/'' @ cid])
     (requests (snd (snd (cuevanaTry w cid streams s))))"
  by (simp add: cuevanaTry_def http_get_def Let_def cuevanaMaster_requests
      split: sum.splits option.splits)

lemma scrapeCuevanaStream_requests:
  "prefix (requests s @ [''https://cuevana3.me/'' @ cid])
     (requests (snd (scrapeCuevanaStream w cid s)))"
proof -
  obtain t out s' where "cuevanaTry w cid [] s = (t, out, s')"
    by (cases "cuevanaTry w cid [] s")
  with cuevanaTry_requests [of s cid w "[]"] show ?thesis
    by (cases t) (simp_all add: scrapeCuevanaStream_def)
qed

lemma failoverTry_requests:
  "prefix (requests s @ [''https://pelisplushd.net/ver/'' @ cid])
     (requests (snd (snd (failoverTry w cid streams s))))"
  by (simp add: failoverTry_def http_get_def Let_def split: sum.splits option.splits)

lemma scrapeFailoverStream_requests:
  "prefix (requests s @ [''https://pelisplushd.net/ver/'' @ cid])
     (requests (snd (scrapeFailoverStream w cid s)))"
proof -
  obtain t out s' where "failoverTry w cid [] s = (t, out, s')"
    by (cases "failoverTry w cid [] s")
  with failoverTry_requests [of s cid w "[]"] show ?thesis
    by (cases t) (simp_all add: scrapeFailoverStream_def)
qed

lemma handlerMiss_requests:
  "requests (snd (handlerMiss w cid k s)) = requests (snd (scrapeWithFailover w cid s))"
  by (simp add: handlerMiss_def handlerTry_def redis_set_ex_def Let_def
      split: prod.splits option.splits)

subsection \<open>Past the master link\<close>

lemma cuevanaTry_master:
  assumes "axios_get w (length (requests s)) (''https://cuevana3.me/'' @ cid) = Inr page"
    and "attr_src (cheerio_iframes w page) = Some iframeUrl"
    and "iframeUrl \<noteq> []"
    and "axios_get w (length (requests s) + 1) iframeUrl = Inr iframeHtml"
    and "m3u8_match iframeHtml = Some masterUrl"
  shows "cuevanaTry w cid streams s =
     cuevanaMaster w masterUrl streams
       (s\<lparr>requests := requests s @ [''https://cuevana3.me/'' @ cid, iframeUrl]\<rparr>)"
  using assms m3u8_match_nonempty [of iframeHtml masterUrl]
  by (simp add: cuevanaTry_def http_get_def Let_def)

lemma list_all2_variant_stream:
  "list_all2 (resolved w masterUrl) ms qs \<Longrightarrow>
   list_all2 (variant_stream w masterUrl) ms (map quality_stream qs)"
  by (induction rule: list_all2_induct)
    (simp_all add: resolved_def variant_stream_def quality_stream_def)

lemma cuevanaMaster_fetched:
  assumes "axios_get w (length (requests s)) masterUrl = Inr playlist"
    and "list_all (resolves w masterUrl) (variant_matches playlist)"
  shows "\<exists>out.
     cuevanaMaster w masterUrl [] s = (None, out, s\<lparr>requests := requests s @ [masterUrl]\<rparr>) \<and>
     (if variant_matches playlist = [] then
        out = [\<lparr>title = ''Auto (Master)'', url = masterUrl, name = ''Cuevana Stream''\<rparr>]
      else list_all2 (variant_stream w masterUrl) (variant_matches playlist) out)"
proof -
  from assms(2) qualities_loop_isl [of w masterUrl "variant_matches playlist" "[]"]
  obtain qs where qs: "qualities_loop w masterUrl (variant_matches playlist) [] = Inr qs"
    by (cases "qualities_loop w masterUrl (variant_matches playlist) []") auto
  from qualities_loop_Inr [OF qs]
  have all2: "list_all2 (resolved w masterUrl) (variant_matches playlist) qs"
    by simp
  then have len: "length (variant_matches playlist) = length qs"
    by (rule list_all2_lengthD)
  show ?thesis
  proof (cases "qs = []")
    case True
    with len assms(1) qs show ?thesis
      by (simp add: cuevanaMaster_def http_get_def)
  next
    case False
    with len have "variant_matches playlist \<noteq> []" by auto
    with False assms(1) qs list_all2_variant_stream [OF all2] show ?thesis
      by (simp add: cuevanaMaster_def http_get_def)
  qed
qed

lemma cuevanaMaster_rejected:
  assumes "axios_get w (length (requests s)) masterUrl = Inr playlist"
    and "\<not> list_all (resolves w masterUrl) (variant_matches playlist)"
  shows "\<exists>err. cuevanaMaster w masterUrl [] s =
     (Some err, [], s\<lparr>requests := requests s @ [masterUrl]\<rparr>)"
proof -
  from assms(2) qualities_loop_isl [of w masterUrl "variant_matches playlist" "[]"]
  obtain err where "qualities_loop w masterUrl (variant_matches playlist) [] = Inl err"
    by (cases "qualities_loop w masterUrl (variant_matches playlist) []") auto
  with assms(1) show ?thesis
    by (simp add: cuevanaMaster_def http_get_def)
qed

lemma failoverTry_found:
  assumes "axios_get w (length (requests s)) (''https://pelisplushd.net/ver/'' @ cid) = Inr page"
    and "attr_src (cheerio_iframes w page) = Some iframeUrl"
    and "iframeUrl \<noteq> []"
    and "axios_get w (length (requests s) + 1) iframeUrl = Inr iframeHtml"
    and "m3u8_match iframeHtml = Some m1"
  shows "failoverTry w cid streams s =
     (None,
      streams @ [\<lparr>title = ''Auto (Failover)'', url = m1, name = ''Failover Stream''\<rparr>],
      s\<lparr>requests := requests s @ [''https://pelisplushd.net/ver/'' @ cid, iframeUrl]\<rparr>)"
  using assms m3u8_match_nonempty [of iframeHtml m1]
  by (simp add: failoverTry_def http_get_def Let_def)


subsection \<open>What the scrapers leave alone\<close>

lemma cuevanaMaster_frame:
  "redis_db (snd (snd (cuevanaMaster w m streams s))) = redis_db s \<and>
   redis_cmds (snd (snd (cuevanaMaster w m streams s))) = redis_cmds s \<and>
   clock (snd (snd (cuevanaMaster w m streams s))) = clock s"
  by (simp add: cuevanaMaster_def http_get_def Let_def split: sum.splits)

lemma cuevanaTry_frame:
  "redis_db (snd (snd (cuevanaTry w cid streams s))) = redis_db s \<and>
   redis_cmds (snd (snd (cuevanaTry w cid streams s))) = redis_cmds s \<and>
   clock (snd (snd (cuevanaTry w cid streams s))) = clock s"
  by (simp add: cuevanaTry_def http_get_def Let_def cuevanaMaster_frame
      split: sum.splits option.splits)

lemma failoverTry_frame:
  "redis_db (snd (snd (failoverTry w cid streams s))) = redis_db s \<and>
   redis_cmds (snd (snd (failoverTry w cid streams s))) = redis_cmds s \<and>
   clock (snd (snd (failoverTry w cid streams s))) = clock s"
  by (simp add: failoverTry_def http_get_def Let_def split: sum.splits option.splits)

lemma scrapeCuevanaStream_frame:
  "redis_db (snd (scrapeCuevanaStream w cid s)) = redis_db s \<and>
   redis_cmds (snd (scrapeCuevanaStream w cid s)) = redis_cmds s \<and>
   clock (snd (scrapeCuevanaStream w cid s)) = clock s"
proof -
  obtain t out s' where "cuevanaTry w cid [] s = (t, out, s')"
    by (cases "cuevanaTry w cid [] s")
  with cuevanaTry_frame [of w cid "[]" s] show ?thesis
    by (cases t) (simp_all add: scrapeCuevanaStream_def console_warn_def)
qed

lemma scrapeFailoverStream_frame:
  "redis_db (snd (scrapeFailoverStream w cid s)) = redis_db s \<and>
   redis_cmds (snd (scrapeFailoverStream w cid s)) = redis_cmds s \<and>
   clock (snd (scrapeFailoverStream w cid s)) = clock s"
proof -
  obtain t out s' where "failoverTry w cid [] s = (t, out, s')"
    by (cases "failoverTry w cid [] s")
  with failoverTry_frame [of w cid "[]" s] show ?thesis
    by (cases t) (simp_all add: scrapeFailoverStream_def console_warn_def)
qed

lemma scrapeWithFailover_frame:
  "redis_db (snd (scrapeWithFailover w cid s)) = redis_db s \<and>
   redis_cmds (snd (scrapeWithFailover w cid s)) = redis_cmds s \<and>
   clock (snd (scrapeWithFailover w cid s)) = clock s"
  using scrapeWithFailover_cases [of w cid s] scrapeCuevanaStream_frame [of w cid s]
    scrapeFailoverStream_frame [of w cid
      "console_warn [''Primary site failed, trying failover for '' @ cid]
         (snd (scrapeCuevanaStream w cid s))"]
  by (auto simp: console_warn_def)

subsection \<open>The handler, case by case\<close>

lemma streamHandler_read_fails:
  "redis_fault w (redis_cmds s) = Some err \<Longrightarrow>
   streamHandler w cid s = (Inl err, s\<lparr>redis_cmds := redis_cmds s + 1\<rparr>)"
  by (simp add: streamHandler_def redis_get_def Let_def)

lemma streamHandler_miss:
  assumes "redis_fault w (redis_cmds s) = None"
    and "redis_lookup s (''stream:'' @ cid) = None \<or> redis_lookup s (''stream:'' @ cid) = Some []"
  shows "streamHandler w cid s =
     (Inr (response (JArr (map stream_json
        (fst (handlerMiss w cid (''stream:'' @ cid) (s\<lparr>redis_cmds := redis_cmds s + 1\<rparr>)))))),
      snd (handlerMiss w cid (''stream:'' @ cid) (s\<lparr>redis_cmds := redis_cmds s + 1\<rparr>)))"
  using assms
  by (auto simp: streamHandler_def redis_get_def Let_def split: prod.splits)


lemma handlerMiss_empty:
  assumes "fst (scrapeWithFailover w cid s) = []"
  shows "handlerMiss w cid k s = ([], snd (scrapeWithFailover w cid s))"
  using assms
  by (cases "scrapeWithFailover w cid s") (simp add: handlerMiss_def handlerTry_def Let_def)

lemma handlerMiss_write_fails:
  assumes "fst (scrapeWithFailover w cid s) \<noteq> []"
    and "redis_fault w (redis_cmds s) = Some err"
  shows "handlerMiss w cid k s =
     (fst (scrapeWithFailover w cid s),
      console_error [''Stream scrape failed:'', message err]
        (snd (scrapeWithFailover w cid s)\<lparr>redis_cmds := redis_cmds s + 1\<rparr>))"
  using assms scrapeWithFailover_frame [of w cid s]
  by (cases "scrapeWithFailover w cid s")
    (simp add: handlerMiss_def handlerTry_def redis_set_ex_def Let_def)

lemma handlerMiss_written:
  assumes "fst (scrapeWithFailover w cid s) \<noteq> []"
    and "redis_fault w (redis_cmds s) = None"
  shows "handlerMiss w cid k s =
     (fst (scrapeWithFailover w cid s),
      snd (scrapeWithFailover w cid s)
        \<lparr>redis_cmds := redis_cmds s + 1,
         redis_db := (redis_db s)
           (k \<mapsto> (JSON_stringify (fst (scrapeWithFailover w cid s)), clock s + 6 * 3600))\<rparr>)"
  using assms scrapeWithFailover_frame [of w cid s]
  by (cases "scrapeWithFailover w cid s")
    (simp add: handlerMiss_def handlerTry_def redis_set_ex_def Let_def)

lemma scrapeWithFailover_requests:
  "prefix (requests s @ [''https://cuevana3.me/'' @ cid])
     (requests (snd (scrapeWithFailover w cid s)))"
proof -
  let ?p = "scrapeCuevanaStream w cid s"
  let ?warned = "console_warn [''Primary site failed, trying failover for '' @ cid] (snd ?p)"
  show ?thesis
  proof (cases "fst ?p = []")
    case True
    with scrapeWithFailover_cases [of w cid s]
    have "scrapeWithFailover w cid s = scrapeFailoverStream w cid ?warned" by simp
    moreover have "prefix (requests ?warned) (requests (snd (scrapeFailoverStream w cid ?warned)))"
      using scrapeFailoverStream_requests [of ?warned cid w] by (rule append_prefixD)
    ultimately show ?thesis
      using scrapeCuevanaStream_requests [of s cid w] by simp
  next
    case False
    with scrapeWithFailover_cases [of w cid s] scrapeCuevanaStream_requests [of s cid w]
    show ?thesis by simp
  qed
qed

lemma redis_lookup_later:
  assumes "redis_lookup s k = None \<or> redis_lookup s k = Some []"
    and "redis_db s2 = redis_db s"
    and "clock s \<le> clock s2"
  shows "redis_lookup s2 k = None \<or> redis_lookup s2 k = Some []"
  using assms
  by (auto simp: redis_lookup_def split: option.splits if_splits)

lemma streamHandler_db:
  "redis_db (snd (streamHandler w cid s)) = redis_db s \<or>
   (redis_fault w (redis_cmds s) = None \<and>
    fst (scrapeWithFailover w cid (s\<lparr>redis_cmds := redis_cmds s + 1\<rparr>)) \<noteq> [] \<and>
    redis_db (snd (streamHandler w cid s)) =
      (redis_db s)
        (''stream:'' @ cid \<mapsto>
           (JSON_stringify (fst (scrapeWithFailover w cid (s\<lparr>redis_cmds := redis_cmds s + 1\<rparr>))),
            clock s + 6 * 3600)))"
proof -
  let ?s1 = "s\<lparr>redis_cmds := redis_cmds s + 1\<rparr>"
  let ?k = "''stream:'' @ cid"
  show ?thesis
  proof (cases "redis_fault w (redis_cmds s)")
    case (Some err)
    then show ?thesis by (simp add: streamHandler_read_fails)
  next
    case None
    show ?thesis
    proof (cases "redis_lookup s ?k = None \<or> redis_lookup s ?k = Some []")
      case False
      with None show ?thesis
        by (auto simp: streamHandler_def redis_get_def Let_def split: option.splits)
    next
      case True
      note miss = streamHandler_miss [OF None True]
      show ?thesis
      proof (cases "fst (scrapeWithFailover w cid ?s1) = []")
        case True
        with miss scrapeWithFailover_frame [of w cid ?s1] show ?thesis
          by (simp add: handlerMiss_empty)
      next
        case nonempty: False
        show ?thesis
        proof (cases "redis_fault w (redis_cmds ?s1)")
          case (Some err)
          from handlerMiss_write_fails [OF nonempty Some, of ?k] miss
            scrapeWithFailover_frame [of w cid ?s1]
          show ?thesis by (simp add: console_error_def)
        next
          case written: None
          from handlerMiss_written [OF nonempty written, of ?k] miss None nonempty
          show ?thesis by simp
        qed
      qed
    qed
  qed
qed

subsection \<open>The depth bound of the parser\<close>

text \<open>
  Every parser consumes at least one character of what it reads; so a bound of twice
  the length of the text, and one, is never reached, and a larger one gives the same
  result.
\<close>

lemma cons_char_Some:
  "cons_char c r = Some (str, rest) \<Longrightarrow> \<exists>str'. r = Some (str', rest) \<and> str = c # str'"
  by (cases r) (auto simp: cons_char_def)

lemma parse_chars_shorter:
  "parse_chars t = Some (str, rest) \<Longrightarrow> length rest < length t"
proof (induction "length t" arbitrary: t str rule: less_induct)
  case less
  have IH: "parse_chars t' = Some (str', rest) \<Longrightarrow> length t' < length t \<Longrightarrow>
      length rest < length t" for t' str'
    using less.hyps [of t' str'] by simp
  from less.prems show ?case
    by (cases t) (auto split: if_splits list.splits option.splits dest!: cons_char_Some dest: IH)
qed

lemma number_int_shorter: "number_int t = Some (i, rest) \<Longrightarrow> length rest < length t"
  by (auto simp: number_int_def split: list.splits if_splits
      intro: le_imp_less_Suc length_dropWhile_le)

lemma number_frac_shorter: "number_frac t = Some (f, rest) \<Longrightarrow> length rest \<le> length t"
  using length_dropWhile_le [of is_digit "drop 1 t"]
  by (auto simp: number_frac_def split: if_splits)

lemma number_exp_shorter: "number_exp t = Some (e, rest) \<Longrightarrow> length rest \<le> length t"
proof -
  have "length (dropWhile is_digit (drop k (drop 1 t))) \<le> length t" for k
    using length_dropWhile_le [of is_digit "drop k (drop 1 t)"] by simp
  then show "number_exp t = Some (e, rest) \<Longrightarrow> length rest \<le> length t"
    by (auto simp: number_exp_def Let_def split: if_splits)
qed

lemma parse_number_shorter: "parse_number t = Some (num, rest) \<Longrightarrow> length rest < length t"
proof -
  assume a: "parse_number t = Some (num, rest)"
  then obtain k i t1 f t2 e where
    "number_int (drop k t) = Some (i, t1)" "number_frac t1 = Some (f, t2)"
    "number_exp t2 = Some (e, rest)"
    by (auto simp: parse_number_def Let_def split: option.splits)
  from number_int_shorter [OF this(1)] number_frac_shorter [OF this(2)]
    number_exp_shorter [OF this(3)]
  show ?thesis by simp
qed


lemma skip_ws_length: "length (skip_ws t) \<le> length t"
  by (simp add: skip_ws_def length_dropWhile_le)

lemma skip_ws_Cons: "skip_ws t = c # cs \<Longrightarrow> length cs < length t"
  using skip_ws_length [of t] by simp

lemma parse_shorter:
  "(\<forall>t v rest. parse_value n t = Some (v, rest) \<longrightarrow> length rest < length t) \<and>
   (\<forall>t acc v rest. parse_elements n t acc = Some (v, rest) \<longrightarrow> length rest < length t) \<and>
   (\<forall>t acc v rest. parse_members n t acc = Some (v, rest) \<longrightarrow> length rest < length t)"
proof (induction n)
  case 0
  then show ?case by simp
next
  case (Suc n)
  then have V: "parse_value n t = Some (v, rest) \<Longrightarrow> length rest < length t"
    and E: "parse_elements n t acc = Some (v, rest) \<Longrightarrow> length rest < length t"
    and M: "parse_members n t ms = Some (v, rest) \<Longrightarrow> length rest < length t"
    for t v rest acc ms
    by blast+
  have "length rest < length t" if a: "parse_value (Suc n) t = Some (v, rest)" for t v rest
  proof -
    obtain c cs where s: "skip_ws t = c # cs"
      using a by (cases "skip_ws t") auto
    note len = skip_ws_Cons [OF s]
    have sk: "length (skip_ws cs) < length t"
      using skip_ws_length [of cs] len by simp
    consider (obj) "c = CHR ''{''" | (arr) "c \<noteq> CHR ''{''" "c = CHR ''[''"
      | (str) "c \<noteq> CHR ''{''" "c \<noteq> CHR ''[''" "c = CHR 0x22"
      | (other) "c \<noteq> CHR ''{''" "c \<noteq> CHR ''[''" "c \<noteq> CHR 0x22"
      by blast
    then show ?thesis
    proof cases
      case obj
      with a s have "(if prefix ''}'' (skip_ws cs) then Some (JObj [], drop 1 (skip_ws cs))
          else parse_members n (skip_ws cs) []) = Some (v, rest)"
        by simp
      with sk M [of "skip_ws cs" "[]" v rest] show ?thesis
        by (auto split: if_splits)
    next
      case arr
      with a s have "(if prefix '']'' (skip_ws cs) then Some (JArr [], drop 1 (skip_ws cs))
          else parse_elements n cs []) = Some (v, rest)"
        by simp
      with sk len E [of cs "[]" v rest] show ?thesis
        by (auto split: if_splits)
    next
      case str
      with a s obtain x where "parse_chars cs = Some (x, rest)"
        by (auto split: option.splits)
      from parse_chars_shorter [OF this] len show ?thesis by simp
    next
      case other
      with a s have
        "(if prefix ''true'' (c # cs) then Some (JBool True, drop 4 (c # cs))
          else if prefix ''false'' (c # cs) then Some (JBool False, drop 5 (c # cs))
          else if prefix ''null'' (c # cs) then Some (JNull, drop 4 (c # cs))
          else (case parse_number (c # cs) of
                  None \<Rightarrow> None
                | Some (num, rest) \<Rightarrow> Some (JNum num, rest))) = Some (v, rest)"
        by simp
      then consider (lit) k where "rest = drop (Suc k) (c # cs)"
        | (num) x where "parse_number (c # cs) = Some (x, rest)"
        by (auto simp: eval_nat_numeral split: if_splits option.splits)
      then show ?thesis
      proof cases
        case lit
        with len show ?thesis by simp
      next
        case num
        from parse_number_shorter [OF num] len show ?thesis by simp
      qed
    qed
  qed
  moreover have "length rest < length t"
    if a: "parse_elements (Suc n) t acc = Some (v, rest)" for t acc v rest
  proof -
    from a obtain v' r' where v: "parse_value n t = Some (v', r')"
      by (auto split: option.splits)
    with a obtain c cs where s: "skip_ws r' = c # cs"
      by (cases "skip_ws r'") auto
    from V [OF v] skip_ws_Cons [OF s] have "length cs < length t" by simp
    with a v s E [of cs "acc @ [v']" v rest] show ?thesis
      by (auto split: if_splits)
  qed
  moreover have "length rest < length t"
    if a: "parse_members (Suc n) t acc = Some (v, rest)" for t acc v rest
  proof -
    from a obtain q qs where s: "skip_ws t = q # qs"
      by (cases "skip_ws t") auto
    with a obtain k r1 where k: "parse_chars qs = Some (k, r1)"
      by (auto split: if_splits option.splits)
    with a s obtain c cs where s1: "skip_ws r1 = c # cs"
      by (cases "skip_ws r1") (auto split: if_splits)
    with a s k obtain v' r2 where v: "parse_value n cs = Some (v', r2)"
      by (auto split: if_splits option.splits)
    with a s k s1 obtain d ds where s2: "skip_ws r2 = d # ds"
      by (cases "skip_ws r2") (auto split: if_splits)
    from skip_ws_Cons [OF s] parse_chars_shorter [OF k] skip_ws_Cons [OF s1] V [OF v]
      skip_ws_Cons [OF s2]
    have "length ds < length t" by simp
    with a s k s1 v s2 M [of ds "obj_put k v' acc" v rest] show ?thesis
      by (auto split: if_splits)
  qed
  ultimately show ?case by blast
qed


lemma parse_value_shorter: "parse_value n t = Some (v, rest) \<Longrightarrow> length rest < length t"
  using parse_shorter [of n] by blast

lemma parse_value_fuel_step:
  assumes M: "\<And>t m acc. 2 * length t + 2 \<le> n \<Longrightarrow> 2 * length t + 2 \<le> m \<Longrightarrow>
      parse_members n t acc = parse_members m t acc"
    and E: "\<And>t m acc. 2 * length t + 2 \<le> n \<Longrightarrow> 2 * length t + 2 \<le> m \<Longrightarrow>
      parse_elements n t acc = parse_elements m t acc"
    and b: "2 * length t + 1 \<le> Suc n" "2 * length t + 1 \<le> Suc m"
  shows "parse_value (Suc n) t = parse_value (Suc m) t"
proof (cases "skip_ws t")
  case Nil
  then show ?thesis by simp
next
  case (Cons c cs)
  from skip_ws_Cons [OF Cons] skip_ws_length [of cs] b
  have len: "2 * length (skip_ws cs) + 2 \<le> n" "2 * length (skip_ws cs) + 2 \<le> m"
    "2 * length cs + 2 \<le> n" "2 * length cs + 2 \<le> m"
    by simp_all
  have eqM: "parse_members n (skip_ws cs) [] = parse_members m (skip_ws cs) []"
    using len(1,2) by (rule M)
  have eqE: "parse_elements n cs [] = parse_elements m cs []"
    using len(3,4) by (rule E)
  show ?thesis
    by (simp add: Cons eqM eqE)
qed

lemma parse_elements_fuel_step:
  assumes V: "\<And>t m. 2 * length t + 1 \<le> n \<Longrightarrow> 2 * length t + 1 \<le> m \<Longrightarrow>
      parse_value n t = parse_value m t"
    and E: "\<And>t m acc. 2 * length t + 2 \<le> n \<Longrightarrow> 2 * length t + 2 \<le> m \<Longrightarrow>
      parse_elements n t acc = parse_elements m t acc"
    and b: "2 * length t + 2 \<le> Suc n" "2 * length t + 2 \<le> Suc m"
  shows "parse_elements (Suc n) t acc = parse_elements (Suc m) t acc"
proof -
  from b have v: "parse_value n t = parse_value m t"
    by (intro V) simp_all
  show ?thesis
  proof (cases "parse_value m t")
    case None
    with v show ?thesis by simp
  next
    case (Some r)
    obtain x rest where r: "r = (x, rest)" by (cases r)
    with Some have vm: "parse_value m t = Some (x, rest)" by simp
    with v have vn: "parse_value n t = Some (x, rest)" by simp
    show ?thesis
    proof (cases "skip_ws rest")
      case Nil
      with vm vn show ?thesis by simp
    next
      case (Cons c cs)
      from parse_value_shorter [OF vm] skip_ws_Cons [OF Cons] b
      have len: "2 * length cs + 2 \<le> n" "2 * length cs + 2 \<le> m"
        by simp_all
      have "parse_elements n cs (acc @ [x]) = parse_elements m cs (acc @ [x])"
        using len by (rule E)
      with vm vn Cons show ?thesis by simp
    qed
  qed
qed

lemma parse_members_fuel_step:
  assumes V: "\<And>t m. 2 * length t + 1 \<le> n \<Longrightarrow> 2 * length t + 1 \<le> m \<Longrightarrow>
      parse_value n t = parse_value m t"
    and M: "\<And>t m acc. 2 * length t + 2 \<le> n \<Longrightarrow> 2 * length t + 2 \<le> m \<Longrightarrow>
      parse_members n t acc = parse_members m t acc"
    and b: "2 * length t + 2 \<le> Suc n" "2 * length t + 2 \<le> Suc m"
  shows "parse_members (Suc n) t acc = parse_members (Suc m) t acc"
proof (cases "skip_ws t")
  case Nil
  then show ?thesis by simp
next
  case s: (Cons q qs)
  show ?thesis
  proof (cases "parse_chars qs")
    case None
    with s show ?thesis by simp
  next
    case (Some kr)
    obtain k r1 where "kr = (k, r1)" by (cases kr)
    with Some have key: "parse_chars qs = Some (k, r1)" by simp
    show ?thesis
    proof (cases "skip_ws r1")
      case Nil
      with s key show ?thesis by simp
    next
      case s1: (Cons c cs)
      from skip_ws_Cons [OF s] parse_chars_shorter [OF key] skip_ws_Cons [OF s1]
      have len: "length cs + 2 \<le> length t" by simp
      with b have v: "parse_value n cs = parse_value m cs"
        by (intro V) simp_all
      show ?thesis
      proof (cases "parse_value m cs")
        case None
        with v s key s1 show ?thesis by simp
      next
        case (Some vr)
        obtain x r2 where "vr = (x, r2)" by (cases vr)
        with Some have vm: "parse_value m cs = Some (x, r2)" by simp
        with v have vn: "parse_value n cs = Some (x, r2)" by simp
        show ?thesis
        proof (cases "skip_ws r2")
          case Nil
          with vm vn s key s1 show ?thesis by simp
        next
          case s2: (Cons d ds)
          from parse_value_shorter [OF vm] skip_ws_Cons [OF s2] len b
          have "2 * length ds + 2 \<le> n" "2 * length ds + 2 \<le> m"
            by simp_all
          then have "parse_members n ds (obj_put k x acc) = parse_members m ds (obj_put k x acc)"
            by (rule M)
          with vm vn s key s1 s2 show ?thesis by simp
        qed
      qed
    qed
  qed
qed

lemma parse_fuel:
  "2 * length t + 1 \<le> n \<Longrightarrow> 2 * length t + 1 \<le> m \<Longrightarrow>
     parse_value n t = parse_value m t"
  "2 * length t + 2 \<le> n \<Longrightarrow> 2 * length t + 2 \<le> m \<Longrightarrow>
     parse_elements n t acc = parse_elements m t acc"
  "2 * length t + 2 \<le> n \<Longrightarrow> 2 * length t + 2 \<le> m \<Longrightarrow>
     parse_members n t ms = parse_members m t ms"
proof (induction n arbitrary: t m acc ms)
  case 0
  {
    case 1
    then show ?case by simp
  next
    case 2
    then show ?case by simp
  next
    case 3
    then show ?case by simp
  }
next
  case (Suc n)
  note V = Suc.IH(1) and E = Suc.IH(2) and M = Suc.IH(3)
  {
    case 1
    from "1"(2) obtain m' where m: "m = Suc m'" by (cases m) auto
    from "1"(2) have "2 * length t + 1 \<le> Suc m'" unfolding m .
    from parse_value_fuel_step [OF M E "1"(1) this] show ?case
      unfolding m .
  next
    case 2
    from "2"(2) obtain m' where m: "m = Suc m'" by (cases m) auto
    from "2"(2) have "2 * length t + 2 \<le> Suc m'" unfolding m .
    from parse_elements_fuel_step [OF V E "2"(1) this] show ?case
      unfolding m .
  next
    case 3
    from "3"(2) obtain m' where m: "m = Suc m'" by (cases m) auto
    from "3"(2) have "2 * length t + 2 \<le> Suc m'" unfolding m .
    from parse_members_fuel_step [OF V M "3"(1) this] show ?case
      unfolding m .
  }
qed

text \<open>A larger bound than the one \<open>JSON_parse\<close> gives changes nothing.\<close>

lemma JSON_parse_fuel:
  "2 * length t + 1 \<le> n \<Longrightarrow>
   JSON_parse t =
     (case parse_value n t of
        None \<Rightarrow> None
      | Some (v, rest) \<Rightarrow> if skip_ws rest = [] then Some v else None)"
  using parse_fuel(1) [of t n "2 * length t + 1"] by (simp add: JSON_parse_def)

subsection \<open>Reading back what \<^verbatim>\<open>JSON.stringify\<close> wrote\<close>














subsection \<open>The concrete runs\<close>

lemma m3u8_match_embed_7: "m3u8_match embed_7 = Some ''https://example.com/a/master.m3u8''"
  by (simp add: embed_7_def m3u8_at_def m3u8_tail_def nonquote_def)

lemma variant_matches_playlist_7:
  "variant_matches playlist_7 = [(''720'', ''720p.m3u8''), (''360'', ''360p.m3u8'')]"
  by (simp add: playlist_7_def variant_at_def resolution_at_def is_digit_def dot_def is_lt_def)

lemma scrapeCuevanaStream_variants:
  "scrapeCuevanaStream world_variants ''film-7'' start =
     ([\<lparr>title = ''720p'', url = ''https://example.com/a/720p.m3u8'', name = ''Cuevana Stream''\<rparr>,
       \<lparr>title = ''360p'', url = ''https://example.com/a/360p.m3u8'', name = ''Cuevana Stream''\<rparr>],
      start\<lparr>requests :=
        [''https://cuevana3.me/film-7'', ''https://p.example/e/7'',
         ''https://example.com/a/master.m3u8'']\<rparr>)"
  by (simp add: scrapeCuevanaStream_def cuevanaTry_def cuevanaMaster_def http_get_def
      world_variants_def site_def start_def attr_src_def quality_stream_def
      m3u8_match_embed_7 variant_matches_playlist_7)

lemma m3u8_match_embed_42: "m3u8_match embed_42 = Some ''https://cdn.example/v/42.m3u8?k=1''"
  by (simp add: embed_42_def m3u8_at_def m3u8_tail_def nonquote_def)

lemma scrapeCuevanaStream_failover:
  "scrapeCuevanaStream world_failover ''movie-42'' s =
     ([], s\<lparr>requests := requests s @ [''https://cuevana3.me/movie-42''],
             console := console s @ [ConsoleWarn [''Primary scrape error:'', ''Network Error'']]\<rparr>)"
  by (simp add: scrapeCuevanaStream_def cuevanaTry_def http_get_def world_failover_def
      site_def console_warn_def)

lemma scrapeFailoverStream_failover:
  "scrapeFailoverStream world_failover ''movie-42'' s =
     ([\<lparr>title = ''Auto (Failover)'', url = ''https://cdn.example/v/42.m3u8?k=1'',
        name = ''Failover Stream''\<rparr>],
      s\<lparr>requests := requests s @
        [''https://pelisplushd.net/ver/movie-42'', ''https://q.example/e/42'']\<rparr>)"
  by (simp add: scrapeFailoverStream_def failoverTry_def http_get_def world_failover_def
      site_def attr_src_def m3u8_match_embed_42)

lemma scrapeWithFailover_failover:
  "scrapeWithFailover world_failover ''movie-42'' start =
     ([\<lparr>title = ''Auto (Failover)'', url = ''https://cdn.example/v/42.m3u8?k=1'',
        name = ''Failover Stream''\<rparr>],
      start\<lparr>requests :=
          [''https://cuevana3.me/movie-42'', ''https://pelisplushd.net/ver/movie-42'',
           ''https://q.example/e/42''],
        console :=
          [ConsoleWarn [''Primary scrape error:'', ''Network Error''],
           ConsoleWarn [''Primary site failed, trying failover for movie-42'']]\<rparr>)"
  by (simp add: scrapeWithFailover_def scrapeCuevanaStream_failover
      scrapeFailoverStream_failover console_warn_def start_def)

lemma m3u8_match_embed_3: "m3u8_match embed_3 = Some ''https://example.com/b/master.m3u8''"
  by (simp add: embed_3_def m3u8_at_def m3u8_tail_def nonquote_def)

lemma variant_matches_playlist_3:
  "variant_matches playlist_3 = [(''720'', ''http://a b/720.m3u8'')]"
  by (simp add: playlist_3_def variant_at_def resolution_at_def is_digit_def dot_def is_lt_def)

lemma m3u8_match_embed_6: "m3u8_match embed_6 = Some ''https://example.com/c/master.m3u8''"
  by (simp add: embed_6_def m3u8_at_def m3u8_tail_def nonquote_def)



lemma scrapeCuevanaStream_variants_any:
  "scrapeCuevanaStream (world_variants\<lparr>redis_fault := f\<rparr>) ''film-7'' s =
     ([\<lparr>title = ''720p'', url = ''https://example.com/a/720p.m3u8'', name = ''Cuevana Stream''\<rparr>,
       \<lparr>title = ''360p'', url = ''https://example.com/a/360p.m3u8'', name = ''Cuevana Stream''\<rparr>],
      s\<lparr>requests := requests s @
        [''https://cuevana3.me/film-7'', ''https://p.example/e/7'',
         ''https://example.com/a/master.m3u8'']\<rparr>)"
  by (simp add: scrapeCuevanaStream_def cuevanaTry_def cuevanaMaster_def http_get_def
      world_variants_def site_def attr_src_def quality_stream_def
      m3u8_match_embed_7 variant_matches_playlist_7)

lemma scrapeWithFailover_variants_any:
  "scrapeWithFailover (world_variants\<lparr>redis_fault := f\<rparr>) ''film-7'' s =
     ([\<lparr>title = ''720p'', url = ''https://example.com/a/720p.m3u8'', name = ''Cuevana Stream''\<rparr>,
       \<lparr>title = ''360p'', url = ''https://example.com/a/360p.m3u8'', name = ''Cuevana Stream''\<rparr>],
      s\<lparr>requests := requests s @
        [''https://cuevana3.me/film-7'', ''https://p.example/e/7'',
         ''https://example.com/a/master.m3u8'']\<rparr>)"
  by (simp add: scrapeWithFailover_def scrapeCuevanaStream_variants_any)

lemma scrapeWithFailover_none:
  "scrapeWithFailover world_failover ''none-0'' s =
     ([],
      s\<lparr>requests := requests s @
          [''https://cuevana3.me/none-0'', ''https://pelisplushd.net/ver/none-0''],
        console := console s @
          [ConsoleWarn [''Primary scrape error:'', ''Network Error''],
           ConsoleWarn [''Primary site failed, trying failover for none-0''],
           ConsoleWarn [''Failover scrape error:'', ''Network Error'']]\<rparr>)"
  by (simp add: scrapeWithFailover_def scrapeCuevanaStream_def cuevanaTry_def
      scrapeFailoverStream_def failoverTry_def http_get_def world_failover_def site_def
      console_warn_def)

lemma world_variants_unfaulted: "world_variants\<lparr>redis_fault := \<lambda>n. None\<rparr> = world_variants"
  by (simp add: world_variants_def site_def)

lemma streamHandler_variants_db:
  "redis_db (snd (streamHandler world_variants ''film-7'' start)) ''stream:film-7'' \<noteq> None"
proof -
  let ?s1 = "start\<lparr>redis_cmds := redis_cmds start + 1\<rparr>"
  have ok: "redis_fault world_variants (redis_cmds start) = None"
    and ok1: "redis_fault world_variants (redis_cmds ?s1) = None"
    by (simp_all add: world_variants_def site_def)
  have miss: "redis_lookup start (''stream:'' @ ''film-7'') = None \<or>
      redis_lookup start (''stream:'' @ ''film-7'') = Some []"
    by (simp add: redis_lookup_def start_def)
  have "scrapeWithFailover world_variants ''film-7'' ?s1 =
     ([\<lparr>title = ''720p'', url = ''https://example.com/a/720p.m3u8'', name = ''Cuevana Stream''\<rparr>,
       \<lparr>title = ''360p'', url = ''https://example.com/a/360p.m3u8'', name = ''Cuevana Stream''\<rparr>],
      ?s1\<lparr>requests := requests ?s1 @
        [''https://cuevana3.me/film-7'', ''https://p.example/e/7'',
         ''https://example.com/a/master.m3u8'']\<rparr>)"
    using scrapeWithFailover_variants_any [of "\<lambda>n. None" ?s1]
    by (simp only: world_variants_unfaulted)
  then have nonempty: "fst (scrapeWithFailover world_variants ''film-7'' ?s1) \<noteq> []"
    by simp
  from streamHandler_miss [OF ok miss]
    handlerMiss_written [OF nonempty ok1, of "''stream:'' @ ''film-7''"]
  show ?thesis by simp
qed



section \<open>The claims\<close>

subsection \<open>C1\<close>

text \<open>
  C1: the handler asks the primary scraper first (its page is the first request sent).
  When that returns streams, they are the result and the run ends in the state the
  primary scraper left: the failover scraper, whose first act is to request its page,
  has not run. When the primary scraper returns no stream, the failover scraper runs
  after it and its list, empty or not, is the result. The result is the list of one
  scraper, never a merge.
\<close>

theorem C1_failover_short_circuit:
  "prefix (requests s @ [''https://cuevana3.me/'' @ cid])
     (requests (snd (scrapeWithFailover w cid s))) \<and>
   (fst (scrapeCuevanaStream w cid s) \<noteq> [] \<longrightarrow>
      scrapeWithFailover w cid s = scrapeCuevanaStream w cid s) \<and>
   (fst (scrapeCuevanaStream w cid s) = [] \<longrightarrow>
      scrapeWithFailover w cid s =
        scrapeFailoverStream w cid
          (console_warn [''Primary site failed, trying failover for '' @ cid]
             (snd (scrapeCuevanaStream w cid s)))) \<and>
   (\<forall>s'. prefix (requests s' @ [''https://pelisplushd.net/ver/'' @ cid])
      (requests (snd (scrapeFailoverStream w cid s')))) \<and>
   fst (handlerMiss w cid k s) = fst (scrapeWithFailover w cid s) \<and>
   requests (snd (handlerMiss w cid k s)) = requests (snd (scrapeWithFailover w cid s))"
proof -
  from scrapeWithFailover_requests [of s cid w] scrapeWithFailover_cases [of w cid s]
    scrapeFailoverStream_requests handlerMiss_streams [of w cid k s]
    handlerMiss_requests [of w cid k s]
  show ?thesis by blast
qed

theorem C1_failover_short_circuit_witness:
  "fst (scrapeCuevanaStream world_variants ''film-7'' start) \<noteq> [] \<and>
   scrapeWithFailover world_variants ''film-7'' start =
     scrapeCuevanaStream world_variants ''film-7'' start \<and>
   requests (snd (scrapeWithFailover world_variants ''film-7'' start)) =
     [''https://cuevana3.me/film-7'', ''https://p.example/e/7'',
      ''https://example.com/a/master.m3u8''] \<and>
   fst (scrapeCuevanaStream world_failover ''movie-42'' start) = [] \<and>
   map title (fst (scrapeWithFailover world_failover ''movie-42'' start)) = [''Auto (Failover)'']"
proof -
  have a: "fst (scrapeCuevanaStream world_variants ''film-7'' start) \<noteq> []"
    by (simp add: scrapeCuevanaStream_variants)
  from a C1_failover_short_circuit [of start "''film-7''" world_variants]
  have b: "scrapeWithFailover world_variants ''film-7'' start =
      scrapeCuevanaStream world_variants ''film-7'' start"
    by blast
  have c: "fst (scrapeCuevanaStream world_failover ''movie-42'' start) = []"
    by (simp add: scrapeCuevanaStream_failover)
  from a b c show ?thesis
    by (simp add: scrapeCuevanaStream_variants scrapeWithFailover_failover)
qed

subsection \<open>C2\<close>

text \<open>
  C2, as stated, fails: a manifest that is fetched and in which the expression matches
  one variant declaration, whose reference \<^verbatim>\<open>new URL\<close> rejects, gives no stream at all.
\<close>

theorem C2_counterexample:
  "axios_get world_badref 2 ''https://example.com/b/master.m3u8'' = Inr playlist_3 \<and>
   length (variant_matches playlist_3) = 1 \<and>
   scrapeCuevanaStream world_badref ''bad-3'' start =
     ([],
      start\<lparr>requests :=
          [''https://cuevana3.me/bad-3'', ''https://p.example/e/3'',
           ''https://example.com/b/master.m3u8''],
        console := [ConsoleWarn [''Primary scrape error:'', ''Invalid URL'']]\<rparr>)"
  by (simp add: scrapeCuevanaStream_def cuevanaTry_def cuevanaMaster_def http_get_def
      world_badref_def site_def start_def attr_src_def console_warn_def
      m3u8_match_embed_3 variant_matches_playlist_3)

text \<open>
  C2, amended: a match of the variant expression gives a height, which is a number,
  and a reference, which ends in \<^verbatim>\<open>.m3u8\<close>. When the primary scraper has fetched the
  master manifest, and \<^verbatim>\<open>new URL\<close> resolves every reference matched in it, the scraper
  returns one stream for each match, in order, titled by the match's height and \<^verbatim>\<open>p\<close>,
  with the resolved reference as its URL; with no match it returns the one stream
  \<^verbatim>\<open>Auto (Master)\<close> for the master URL. When \<^verbatim>\<open>new URL\<close> rejects a matched reference, the
  scraper returns the empty list.
\<close>

theorem C2_quality_tiers:
  assumes "axios_get w (length (requests s)) (''https://cuevana3.me/'' @ cid) = Inr page"
    and "attr_src (cheerio_iframes w page) = Some iframeUrl"
    and "iframeUrl \<noteq> []"
    and "axios_get w (length (requests s) + 1) iframeUrl = Inr iframeHtml"
    and "m3u8_match iframeHtml = Some masterUrl"
    and "axios_get w (length (requests s) + 2) masterUrl = Inr playlist"
  shows "(\<forall>m \<in> set (variant_matches playlist).
            fst m \<noteq> [] \<and> list_all is_digit (fst m) \<and> suffix ''.m3u8'' (snd m)) \<and>
         (if list_all (resolves w masterUrl) (variant_matches playlist) then
            (if variant_matches playlist = [] then
               fst (scrapeCuevanaStream w cid s) =
                 [\<lparr>title = ''Auto (Master)'', url = masterUrl, name = ''Cuevana Stream''\<rparr>]
             else
               list_all2 (variant_stream w masterUrl) (variant_matches playlist)
                 (fst (scrapeCuevanaStream w cid s)))
          else fst (scrapeCuevanaStream w cid s) = [])"
proof -
  have shape: "\<forall>m \<in> set (variant_matches playlist).
      fst m \<noteq> [] \<and> list_all is_digit (fst m) \<and> suffix ''.m3u8'' (snd m)"
    using variant_matches_shape by blast
  let ?s2 = "s\<lparr>requests := requests s @ [''https://cuevana3.me/'' @ cid, iframeUrl]\<rparr>"
  have body: "cuevanaTry w cid [] s = cuevanaMaster w masterUrl [] ?s2"
    using assms(1-5) by (rule cuevanaTry_master)
  have fetched: "axios_get w (length (requests ?s2)) masterUrl = Inr playlist"
    using assms(6) by simp
  have tiers: "if list_all (resolves w masterUrl) (variant_matches playlist) then
      (if variant_matches playlist = [] then
         fst (scrapeCuevanaStream w cid s) =
           [\<lparr>title = ''Auto (Master)'', url = masterUrl, name = ''Cuevana Stream''\<rparr>]
       else
         list_all2 (variant_stream w masterUrl) (variant_matches playlist)
           (fst (scrapeCuevanaStream w cid s)))
    else fst (scrapeCuevanaStream w cid s) = []"
  proof (cases "list_all (resolves w masterUrl) (variant_matches playlist)")
    case True
    from cuevanaMaster_fetched [OF fetched True] body True show ?thesis
      by (auto simp: scrapeCuevanaStream_def)
  next
    case False
    from cuevanaMaster_rejected [OF fetched False] body False show ?thesis
      by (auto simp: scrapeCuevanaStream_def)
  qed
  from shape tiers show ?thesis by (rule conjI)
qed

theorem C2_quality_tiers_witness:
  "list_all (resolves world_variants ''https://example.com/a/master.m3u8'')
     (variant_matches playlist_7) \<and>
   variant_matches playlist_7 = [(''720'', ''720p.m3u8''), (''360'', ''360p.m3u8'')] \<and>
   list_all2 (variant_stream world_variants ''https://example.com/a/master.m3u8'')
     (variant_matches playlist_7) (fst (scrapeCuevanaStream world_variants ''film-7'' start)) \<and>
   map title (fst (scrapeCuevanaStream world_variants ''film-7'' start)) = [''720p'', ''360p'']"
proof -
  have r: "list_all (resolves world_variants ''https://example.com/a/master.m3u8'')
     (variant_matches playlist_7)"
    by (simp add: variant_matches_playlist_7 resolves_def world_variants_def site_def)
  have "list_all2 (variant_stream world_variants ''https://example.com/a/master.m3u8'')
     (variant_matches playlist_7) (fst (scrapeCuevanaStream world_variants ''film-7'' start))"
    using C2_quality_tiers [of world_variants start "''film-7''" page_7
        "''https://p.example/e/7''" embed_7 "''https://example.com/a/master.m3u8''" playlist_7]
      r m3u8_match_embed_7
    by (simp add: world_variants_def site_def start_def attr_src_def variant_matches_playlist_7)
  with r show ?thesis
    by (simp add: variant_matches_playlist_7 scrapeCuevanaStream_variants)
qed

subsection \<open>C3\<close>

text \<open>
  C3: when the handler, after a cache miss, gets the empty list from the two scrapers,
  it returns the empty list and writes nothing: the database is as before and the
  \<^verbatim>\<open>get\<close> is the only command sent. A later request for the same id (the database as it
  was, the clock not before) is again a miss and scrapes again, beginning with the
  request for the primary page. In any run, the database changes only by the entry
  \<^verbatim>\<open>stream:<id>\<close>, and only when the list is not empty.
\<close>

theorem C3_empty_not_cached:
  "(redis_fault w (redis_cmds s) = None \<and>
    (redis_lookup s (''stream:'' @ cid) = None \<or> redis_lookup s (''stream:'' @ cid) = Some []) \<and>
    fst (scrapeWithFailover w cid (s\<lparr>redis_cmds := redis_cmds s + 1\<rparr>)) = [] \<longrightarrow>
    fst (streamHandler w cid s) = Inr (response (JArr [])) \<and>
    redis_db (snd (streamHandler w cid s)) = redis_db s \<and>
    redis_cmds (snd (streamHandler w cid s)) = redis_cmds s + 1 \<and>
    (\<forall>s2. redis_db s2 = redis_db s \<and> clock s \<le> clock s2 \<and>
       redis_fault w (redis_cmds s2) = None \<longrightarrow>
       prefix (requests s2 @ [''https://cuevana3.me/'' @ cid])
         (requests (snd (streamHandler w cid s2))))) \<and>
   (redis_db (snd (streamHandler w cid s)) \<noteq> redis_db s \<longrightarrow>
    fst (scrapeWithFailover w cid (s\<lparr>redis_cmds := redis_cmds s + 1\<rparr>)) \<noteq> [] \<and>
    redis_db (snd (streamHandler w cid s)) =
      (redis_db s)
        (''stream:'' @ cid \<mapsto>
           (JSON_stringify (fst (scrapeWithFailover w cid (s\<lparr>redis_cmds := redis_cmds s + 1\<rparr>))),
            clock s + 6 * 3600)))"
proof -
  let ?s1 = "s\<lparr>redis_cmds := redis_cmds s + 1\<rparr>"
  let ?k = "''stream:'' @ cid"
  have empty: "fst (streamHandler w cid s) = Inr (response (JArr [])) \<and>
    redis_db (snd (streamHandler w cid s)) = redis_db s \<and>
    redis_cmds (snd (streamHandler w cid s)) = redis_cmds s + 1 \<and>
    (\<forall>s2. redis_db s2 = redis_db s \<and> clock s \<le> clock s2 \<and>
       redis_fault w (redis_cmds s2) = None \<longrightarrow>
       prefix (requests s2 @ [''https://cuevana3.me/'' @ cid])
         (requests (snd (streamHandler w cid s2))))"
    if ok: "redis_fault w (redis_cmds s) = None"
      and miss: "redis_lookup s ?k = None \<or> redis_lookup s ?k = Some []"
      and none: "fst (scrapeWithFailover w cid ?s1) = []"
  proof -
    from streamHandler_miss [OF ok miss] handlerMiss_empty [OF none, of ?k]
    have run: "streamHandler w cid s = (Inr (response (JArr [])), snd (scrapeWithFailover w cid ?s1))"
      by simp
    have again: "prefix (requests s2 @ [''https://cuevana3.me/'' @ cid])
         (requests (snd (streamHandler w cid s2)))"
      if later: "redis_db s2 = redis_db s \<and> clock s \<le> clock s2 \<and>
        redis_fault w (redis_cmds s2) = None" for s2
    proof -
      from later redis_lookup_later [OF miss, of s2]
      have miss2: "redis_lookup s2 ?k = None \<or> redis_lookup s2 ?k = Some []"
        by simp
      from later have ok2: "redis_fault w (redis_cmds s2) = None" by simp
      from streamHandler_miss [OF ok2 miss2]
      have "requests (snd (streamHandler w cid s2)) =
          requests (snd (scrapeWithFailover w cid (s2\<lparr>redis_cmds := redis_cmds s2 + 1\<rparr>)))"
        by (simp add: handlerMiss_requests)
      with scrapeWithFailover_requests [of "s2\<lparr>redis_cmds := redis_cmds s2 + 1\<rparr>" cid w]
      show ?thesis by simp
    qed
    from run scrapeWithFailover_frame [of w cid ?s1] again show ?thesis
      by simp
  qed
  from empty streamHandler_db [of w cid s] show ?thesis
    by blast
qed

theorem C3_empty_not_cached_witness:
  "redis_fault world_failover (redis_cmds start) = None \<and>
   redis_lookup start (''stream:'' @ ''none-0'') = None \<and>
   fst (scrapeWithFailover world_failover ''none-0''
     (start\<lparr>redis_cmds := redis_cmds start + 1\<rparr>)) = [] \<and>
   fst (streamHandler world_failover ''none-0'' start) = Inr (response (JArr [])) \<and>
   redis_db (snd (streamHandler world_failover ''none-0'' start)) = redis_db start \<and>
   prefix
     (requests (snd (streamHandler world_failover ''none-0'' start)) @
        [''https://cuevana3.me/'' @ ''none-0''])
     (requests (snd (streamHandler world_failover ''none-0''
        (snd (streamHandler world_failover ''none-0'' start))))) \<and>
   redis_db (snd (streamHandler world_variants ''film-7'' start)) \<noteq> redis_db start \<and>
   fst (scrapeWithFailover world_variants ''film-7''
     (start\<lparr>redis_cmds := redis_cmds start + 1\<rparr>)) \<noteq> []"
proof -
  let ?s1 = "start\<lparr>redis_cmds := redis_cmds start + 1\<rparr>"
  let ?s2 = "snd (streamHandler world_failover ''none-0'' start)"
  note inst = C3_empty_not_cached [of world_failover start "''none-0''"]
  have ok: "redis_fault world_failover n = None" for n
    by (simp add: world_failover_def site_def)
  have miss: "redis_lookup start (''stream:'' @ ''none-0'') = None"
    by (simp add: redis_lookup_def start_def)
  have none: "fst (scrapeWithFailover world_failover ''none-0'' ?s1) = []"
    by (simp add: scrapeWithFailover_none)
  from inst ok miss none
  have run: "fst (streamHandler world_failover ''none-0'' start) = Inr (response (JArr []))"
    and db: "redis_db ?s2 = redis_db start"
    and later: "\<And>s2. redis_db s2 = redis_db start \<and> clock start \<le> clock s2 \<and>
       redis_fault world_failover (redis_cmds s2) = None \<Longrightarrow>
       prefix (requests s2 @ [''https://cuevana3.me/'' @ ''none-0''])
         (requests (snd (streamHandler world_failover ''none-0'' s2)))"
    by blast+
  from streamHandler_miss [OF ok, of start "''none-0''"] miss
    handlerMiss_empty [OF none, of "''stream:'' @ ''none-0''"]
  have "?s2 = snd (scrapeWithFailover world_failover ''none-0'' ?s1)"
    by simp
  then have "clock ?s2 = clock start"
    by (simp add: scrapeWithFailover_none)
  with db ok later [of ?s2]
  have again: "prefix (requests ?s2 @ [''https://cuevana3.me/'' @ ''none-0''])
     (requests (snd (streamHandler world_failover ''none-0'' ?s2)))"
    by simp
  have "redis_db start ''stream:film-7'' = None"
    by (simp add: start_def)
  with streamHandler_variants_db
  have changed: "redis_db (snd (streamHandler world_variants ''film-7'' start)) \<noteq> redis_db start"
    by metis
  with C3_empty_not_cached [of world_variants start "''film-7''"]
  have "fst (scrapeWithFailover world_variants ''film-7'' ?s1) \<noteq> []"
    by blast
  with ok miss none run db again changed show ?thesis
    by blast
qed

subsection \<open>C4\<close>

text \<open>
  C4: neither scraper raises an error: whatever its \<^verbatim>\<open>try\<close> block throws is caught, logged
  as a warning, and the scraper returns the empty list. Each stage failure (page not
  fetched, no inline frame source, frame not fetched, no manifest URL, manifest not
  fetched, reference rejected) is such a throw, so each ends in the empty list.
\<close>

theorem C4_scrapers_return_lists:
  "scrapeCuevanaStream w cid s =
     (case cuevanaTry w cid [] s of
        (Some err, out, s') \<Rightarrow> ([], console_warn [''Primary scrape error:'', message err] s')
      | (None, out, s') \<Rightarrow> (out, s')) \<and>
   scrapeFailoverStream w cid s =
     (case failoverTry w cid [] s of
        (Some err, out, s') \<Rightarrow> ([], console_warn [''Failover scrape error:'', message err] s')
      | (None, out, s') \<Rightarrow> (out, s')) \<and>
   (primary_stage_failure w cid s \<longleftrightarrow> fst (cuevanaTry w cid [] s) \<noteq> None) \<and>
   (failover_stage_failure w cid s \<longleftrightarrow> fst (failoverTry w cid [] s) \<noteq> None) \<and>
   (primary_stage_failure w cid s \<longrightarrow> fst (scrapeCuevanaStream w cid s) = []) \<and>
   (failover_stage_failure w cid s \<longrightarrow> fst (scrapeFailoverStream w cid s) = [])"
proof -
  obtain t1 o1 s1 where p: "cuevanaTry w cid [] s = (t1, o1, s1)"
    by (cases "cuevanaTry w cid [] s")
  obtain t2 o2 s2 where f: "failoverTry w cid [] s = (t2, o2, s2)"
    by (cases "failoverTry w cid [] s")
  have p1: "t1 \<noteq> None \<Longrightarrow> o1 = []"
    using cuevanaTry_throws [of w cid "[]" s _ o1 s1] p by auto
  have f1: "t2 \<noteq> None \<Longrightarrow> o2 = []"
    using failoverTry_throws [of w cid "[]" s _ o2 s2] f by auto
  have "scrapeCuevanaStream w cid s =
     (case cuevanaTry w cid [] s of
        (Some err, out, s') \<Rightarrow> ([], console_warn [''Primary scrape error:'', message err] s')
      | (None, out, s') \<Rightarrow> (out, s'))"
    using p p1 by (cases t1) (simp_all add: scrapeCuevanaStream_def)
  moreover have "scrapeFailoverStream w cid s =
     (case failoverTry w cid [] s of
        (Some err, out, s') \<Rightarrow> ([], console_warn [''Failover scrape error:'', message err] s')
      | (None, out, s') \<Rightarrow> (out, s'))"
    using f f1 by (cases t2) (simp_all add: scrapeFailoverStream_def)
  moreover have "primary_stage_failure w cid s \<longleftrightarrow> fst (cuevanaTry w cid [] s) \<noteq> None"
    using cuevanaTry_throws_iff [of w cid "[]" s] by simp
  moreover have "failover_stage_failure w cid s \<longleftrightarrow> fst (failoverTry w cid [] s) \<noteq> None"
    using failoverTry_throws_iff [of w cid "[]" s] by simp
  moreover have "primary_stage_failure w cid s \<longrightarrow> fst (scrapeCuevanaStream w cid s) = []"
    using cuevanaTry_throws_iff [of w cid "[]" s] p p1
    by (cases t1) (simp_all add: scrapeCuevanaStream_def)
  moreover have "failover_stage_failure w cid s \<longrightarrow> fst (scrapeFailoverStream w cid s) = []"
    using failoverTry_throws_iff [of w cid "[]" s] f f1
    by (cases t2) (simp_all add: scrapeFailoverStream_def)
  ultimately show ?thesis by blast
qed

theorem C4_scrapers_return_lists_witness:
  "primary_stage_failure world_failover ''movie-42'' start \<and>
   fst (scrapeCuevanaStream world_failover ''movie-42'' start) = [] \<and>
   failover_stage_failure world_variants ''film-7'' start \<and>
   fst (scrapeFailoverStream world_variants ''film-7'' start) = []"
proof -
  have p: "primary_stage_failure world_failover ''movie-42'' start"
    by (simp add: primary_stage_failure_def world_failover_def site_def start_def)
  have f: "failover_stage_failure world_variants ''film-7'' start"
    by (simp add: failover_stage_failure_def world_variants_def site_def start_def)
  from p C4_scrapers_return_lists [of world_failover "''movie-42''" start]
  have a: "fst (scrapeCuevanaStream world_failover ''movie-42'' start) = []"
    by blast
  from f C4_scrapers_return_lists [of world_variants "''film-7''" start]
  have b: "fst (scrapeFailoverStream world_variants ''film-7'' start) = []"
    by blast
  from p f a b show ?thesis by simp
qed

subsection \<open>C5\<close>




subsection \<open>C6\<close>

text \<open>
  C6, as stated, fails for the primary scraper: the master URL is found in the frame,
  the request for the manifest fails, and the scraper returns the empty list.
\<close>

theorem C6_counterexample:
  "axios_get world_gone 1 ''https://p.example/e/6'' = Inr embed_6 \<and>
   m3u8_match embed_6 = Some ''https://example.com/c/master.m3u8'' \<and>
   scrapeCuevanaStream world_gone ''gone-6'' start =
     ([],
      start\<lparr>requests :=
          [''https://cuevana3.me/gone-6'', ''https://p.example/e/6'',
           ''https://example.com/c/master.m3u8''],
        console := [ConsoleWarn [''Primary scrape error:'', ''Network Error'']]\<rparr>)"
  by (simp add: scrapeCuevanaStream_def cuevanaTry_def cuevanaMaster_def http_get_def
      world_gone_def site_def start_def attr_src_def console_warn_def m3u8_match_embed_6)

text \<open>
  C6, amended: once the failover scraper has found a manifest URL in the frame it
  returns exactly one stream, for that URL. Once the primary scraper has found the
  master URL, it returns at least one stream if the manifest is fetched and \<^verbatim>\<open>new URL\<close>
  resolves every matched reference, and the empty list if not.
\<close>

theorem C6_found_master:
  assumes "axios_get w (length (requests s)) (base @ cid) = Inr page"
    and "attr_src (cheerio_iframes w page) = Some iframeUrl"
    and "iframeUrl \<noteq> []"
    and "axios_get w (length (requests s) + 1) iframeUrl = Inr iframeHtml"
    and "m3u8_match iframeHtml = Some masterUrl"
  shows "(base = ''https://pelisplushd.net/ver/'' \<longrightarrow>
            fst (scrapeFailoverStream w cid s) =
              [\<lparr>title = ''Auto (Failover)'', url = masterUrl, name = ''Failover Stream''\<rparr>]) \<and>
         (base = ''https://cuevana3.me/'' \<longrightarrow>
            (fst (scrapeCuevanaStream w cid s) \<noteq> [] \<longleftrightarrow>
             (case axios_get w (length (requests s) + 2) masterUrl of
                Inl e \<Rightarrow> False
              | Inr playlist \<Rightarrow> list_all (resolves w masterUrl) (variant_matches playlist))))"
proof (intro conjI impI)
  assume "base = ''https://pelisplushd.net/ver/''"
  with assms failoverTry_found [of w s cid page iframeUrl iframeHtml masterUrl "[]"]
  show "fst (scrapeFailoverStream w cid s) =
      [\<lparr>title = ''Auto (Failover)'', url = masterUrl, name = ''Failover Stream''\<rparr>]"
    by (simp add: scrapeFailoverStream_def)
next
  assume b: "base = ''https://cuevana3.me/''"
  let ?s2 = "s\<lparr>requests := requests s @ [''https://cuevana3.me/'' @ cid, iframeUrl]\<rparr>"
  have body: "cuevanaTry w cid [] s = cuevanaMaster w masterUrl [] ?s2"
    using assms b cuevanaTry_master [of w s cid page iframeUrl iframeHtml masterUrl "[]"]
    by simp
  show "fst (scrapeCuevanaStream w cid s) \<noteq> [] \<longleftrightarrow>
     (case axios_get w (length (requests s) + 2) masterUrl of
        Inl e \<Rightarrow> False
      | Inr playlist \<Rightarrow> list_all (resolves w masterUrl) (variant_matches playlist))"
  proof (cases "axios_get w (length (requests s) + 2) masterUrl")
    case (Inl e)
    with body show ?thesis
      by (simp add: scrapeCuevanaStream_def cuevanaMaster_def http_get_def)
  next
    case (Inr playlist)
    then have fetched: "axios_get w (length (requests ?s2)) masterUrl = Inr playlist"
      by simp
    show ?thesis
    proof (cases "list_all (resolves w masterUrl) (variant_matches playlist)")
      case True
      from cuevanaMaster_fetched [OF fetched True] body True Inr show ?thesis
        by (auto simp: scrapeCuevanaStream_def split: if_splits)
    next
      case False
      from cuevanaMaster_rejected [OF fetched False] body False Inr show ?thesis
        by (auto simp: scrapeCuevanaStream_def)
    qed
  qed
qed

theorem C6_found_master_witness:
  "fst (scrapeFailoverStream world_failover ''movie-42'' start) =
     [\<lparr>title = ''Auto (Failover)'', url = ''https://cdn.example/v/42.m3u8?k=1'',
       name = ''Failover Stream''\<rparr>] \<and>
   axios_get world_variants 2 ''https://example.com/a/master.m3u8'' = Inr playlist_7 \<and>
   list_all (resolves world_variants ''https://example.com/a/master.m3u8'')
     (variant_matches playlist_7) \<and>
   fst (scrapeCuevanaStream world_variants ''film-7'' start) \<noteq> []"
proof -
  have a: "fst (scrapeFailoverStream world_failover ''movie-42'' start) =
     [\<lparr>title = ''Auto (Failover)'', url = ''https://cdn.example/v/42.m3u8?k=1'',
       name = ''Failover Stream''\<rparr>]"
    using C6_found_master [of world_failover start "''https://pelisplushd.net/ver/''"
        "''movie-42''" page_42 "''https://q.example/e/42''" embed_42
        "''https://cdn.example/v/42.m3u8?k=1''"]
      m3u8_match_embed_42
    by (simp add: world_failover_def site_def start_def attr_src_def)
  have f: "axios_get world_variants 2 ''https://example.com/a/master.m3u8'' = Inr playlist_7"
    by (simp add: world_variants_def site_def)
  have r: "list_all (resolves world_variants ''https://example.com/a/master.m3u8'')
     (variant_matches playlist_7)"
    by (simp add: variant_matches_playlist_7 resolves_def world_variants_def site_def)
  have "fst (scrapeCuevanaStream world_variants ''film-7'' start) \<noteq> []"
    using C6_found_master [of world_variants start "''https://cuevana3.me/''"
        "''film-7''" page_7 "''https://p.example/e/7''" embed_7
        "''https://example.com/a/master.m3u8''"]
      m3u8_match_embed_7 r
    by (simp add: world_variants_def site_def start_def attr_src_def)
  with a f r show ?thesis by simp
qed

subsection \<open>C7\<close>

text \<open>
  C7, as stated, fails: when \<^verbatim>\<open>redis.get\<close> rejects, the handler's promise rejects with
  that error and nothing is scraped, although the scrape would have given two streams.
\<close>

theorem C7_counterexample:
  "streamHandler world_redis_down ''film-7'' start =
     (Inl (JsError ''Connection is closed.''), start\<lparr>redis_cmds := 1\<rparr>) \<and>
   length (fst (scrapeWithFailover world_redis_down ''film-7'' (start\<lparr>redis_cmds := 1\<rparr>))) = 2"
  by (simp add: streamHandler_def redis_get_def world_redis_down_def
      scrapeWithFailover_variants_any)
    (simp add: start_def)

text \<open>
  C7, amended: when the cache read fails, the handler rejects with the error of the
  read and attempts no resolution. When the read is a miss, the resolution gives
  streams and the cache write fails, the error is caught and logged with
  \<^verbatim>\<open>console.error\<close>, nothing is written, and the streams are returned.
\<close>

theorem C7_cache_errors:
  "(\<forall>err. redis_fault w (redis_cmds s) = Some err \<longrightarrow>
      streamHandler w cid s = (Inl err, s\<lparr>redis_cmds := redis_cmds s + 1\<rparr>)) \<and>
   (\<forall>err.
      redis_fault w (redis_cmds s) = None \<and>
      (redis_lookup s (''stream:'' @ cid) = None \<or>
       redis_lookup s (''stream:'' @ cid) = Some []) \<and>
      fst (scrapeWithFailover w cid (s\<lparr>redis_cmds := redis_cmds s + 1\<rparr>)) \<noteq> [] \<and>
      redis_fault w (redis_cmds s + 1) = Some err \<longrightarrow>
      streamHandler w cid s =
        (Inr (response (JArr (map stream_json
           (fst (scrapeWithFailover w cid (s\<lparr>redis_cmds := redis_cmds s + 1\<rparr>)))))),
         console_error [''Stream scrape failed:'', message err]
           (snd (scrapeWithFailover w cid (s\<lparr>redis_cmds := redis_cmds s + 1\<rparr>))
              \<lparr>redis_cmds := redis_cmds s + 2\<rparr>)) \<and>
      redis_db (snd (streamHandler w cid s)) = redis_db s)"
proof -
  let ?s1 = "s\<lparr>redis_cmds := redis_cmds s + 1\<rparr>"
  have rfail: "streamHandler w cid s = (Inl err, ?s1)"
    if "redis_fault w (redis_cmds s) = Some err" for err
    using that by (rule streamHandler_read_fails)
  have wfail: "streamHandler w cid s =
        (Inr (response (JArr (map stream_json (fst (scrapeWithFailover w cid ?s1))))),
         console_error [''Stream scrape failed:'', message err]
           (snd (scrapeWithFailover w cid ?s1)\<lparr>redis_cmds := redis_cmds s + 2\<rparr>)) \<and>
      redis_db (snd (streamHandler w cid s)) = redis_db s"
    if a: "redis_fault w (redis_cmds s) = None \<and>
      (redis_lookup s (''stream:'' @ cid) = None \<or>
       redis_lookup s (''stream:'' @ cid) = Some []) \<and>
      fst (scrapeWithFailover w cid ?s1) \<noteq> [] \<and>
      redis_fault w (redis_cmds s + 1) = Some err" for err
  proof -
    from a have miss: "streamHandler w cid s =
       (Inr (response (JArr (map stream_json (fst (handlerMiss w cid (''stream:'' @ cid) ?s1))))),
        snd (handlerMiss w cid (''stream:'' @ cid) ?s1))"
      using streamHandler_miss [of w s cid] by blast
    from a have "handlerMiss w cid (''stream:'' @ cid) ?s1 =
       (fst (scrapeWithFailover w cid ?s1),
        console_error [''Stream scrape failed:'', message err]
          (snd (scrapeWithFailover w cid ?s1)\<lparr>redis_cmds := redis_cmds ?s1 + 1\<rparr>))"
      using handlerMiss_write_fails [of w cid ?s1 err "''stream:'' @ cid"] by simp
    with miss show ?thesis
      using scrapeWithFailover_frame [of w cid ?s1]
      by (simp add: console_error_def)
  qed
  from rfail wfail show ?thesis by blast
qed

theorem C7_cache_errors_witness:
  "redis_fault world_redis_down (redis_cmds start) = Some (JsError ''Connection is closed.'') \<and>
   streamHandler world_redis_down ''film-7'' start =
     (Inl (JsError ''Connection is closed.''), start\<lparr>redis_cmds := redis_cmds start + 1\<rparr>) \<and>
   redis_fault world_redis_readonly (redis_cmds start + 1) =
     Some (JsError ''Connection is closed.'') \<and>
   map title (fst (scrapeWithFailover world_redis_readonly ''film-7''
     (start\<lparr>redis_cmds := redis_cmds start + 1\<rparr>))) = [''720p'', ''360p''] \<and>
   fst (streamHandler world_redis_readonly ''film-7'' start) =
     Inr (response (JArr (map stream_json
       (fst (scrapeWithFailover world_redis_readonly ''film-7''
          (start\<lparr>redis_cmds := redis_cmds start + 1\<rparr>)))))) \<and>
   console (snd (streamHandler world_redis_readonly ''film-7'' start)) =
     [ConsoleError [''Stream scrape failed:'', ''Connection is closed.'']] \<and>
   redis_db (snd (streamHandler world_redis_readonly ''film-7'' start)) = redis_db start"
proof -
  let ?e = "JsError ''Connection is closed.''"
  let ?s1 = "start\<lparr>redis_cmds := redis_cmds start + 1\<rparr>"
  have a: "redis_fault world_redis_down (redis_cmds start) = Some ?e"
    by (simp add: world_redis_down_def start_def)
  with C7_cache_errors [of world_redis_down start "''film-7''"]
  have b: "streamHandler world_redis_down ''film-7'' start = (Inl ?e, ?s1)"
    by blast
  have c: "redis_fault world_redis_readonly (redis_cmds start) = None"
    and d: "redis_fault world_redis_readonly (redis_cmds start + 1) = Some ?e"
    and e: "redis_lookup start (''stream:'' @ ''film-7'') = None"
    by (simp_all add: world_redis_readonly_def start_def redis_lookup_def)
  have f: "scrapeWithFailover world_redis_readonly ''film-7'' ?s1 =
     ([\<lparr>title = ''720p'', url = ''https://example.com/a/720p.m3u8'', name = ''Cuevana Stream''\<rparr>,
       \<lparr>title = ''360p'', url = ''https://example.com/a/360p.m3u8'', name = ''Cuevana Stream''\<rparr>],
      ?s1\<lparr>requests := requests ?s1 @
        [''https://cuevana3.me/film-7'', ''https://p.example/e/7'',
         ''https://example.com/a/master.m3u8'']\<rparr>)"
    unfolding world_redis_readonly_def by (rule scrapeWithFailover_variants_any)
  then have g: "fst (scrapeWithFailover world_redis_readonly ''film-7'' ?s1) \<noteq> []"
    by simp
  from c d e g C7_cache_errors [of world_redis_readonly start "''film-7''"]
  have h: "streamHandler world_redis_readonly ''film-7'' start =
        (Inr (response (JArr (map stream_json
           (fst (scrapeWithFailover world_redis_readonly ''film-7'' ?s1))))),
         console_error [''Stream scrape failed:'', message ?e]
           (snd (scrapeWithFailover world_redis_readonly ''film-7'' ?s1)
              \<lparr>redis_cmds := redis_cmds start + 2\<rparr>)) \<and>
      redis_db (snd (streamHandler world_redis_readonly ''film-7'' start)) = redis_db start"
    by blast
  from f have k: "console (snd (scrapeWithFailover world_redis_readonly ''film-7'' ?s1)) = []"
    by (simp add: start_def)
  from h have "console (snd (streamHandler world_redis_readonly ''film-7'' start)) =
     console (snd (scrapeWithFailover world_redis_readonly ''film-7'' ?s1)) @
       [ConsoleError [''Stream scrape failed:'', ''Connection is closed.'']]"
    by (simp add: console_error_def)
  with k have i: "console (snd (streamHandler world_redis_readonly ''film-7'' start)) =
     [ConsoleError [''Stream scrape failed:'', ''Connection is closed.'']]"
    by simp
  from f have j: "map title (fst (scrapeWithFailover world_redis_readonly ''film-7'' ?s1)) =
     [''720p'', ''360p'']"
    by simp
  from h have h1: "fst (streamHandler world_redis_readonly ''film-7'' start) =
     Inr (response (JArr (map stream_json
       (fst (scrapeWithFailover world_redis_readonly ''film-7'' ?s1)))))"
    by simp
  from h have h2: "redis_db (snd (streamHandler world_redis_readonly ''film-7'' start)) =
     redis_db start"
    by blast
  from a b d j h1 i h2 show ?thesis by blast
qed

subsection \<open>C8\<close>

text \<open>
  C8, as stated, fails: a page whose only inline frame has no \<^verbatim>\<open>src\<close> attribute has an
  inline-frame element, and the scraper still throws \<^verbatim>\<open>Iframe not found\<close> and returns the
  empty list, after the one request for the page.
\<close>

theorem C8_counterexample:
  "axios_get world_nosrc 0 ''https://cuevana3.me/lazy-8'' = Inr page_8 \<and>
   cheerio_iframes world_nosrc page_8 = [None] \<and>
   scrapeCuevanaStream world_nosrc ''lazy-8'' start =
     ([],
      start\<lparr>requests := [''https://cuevana3.me/lazy-8''],
        console := [ConsoleWarn [''Primary scrape error:'', ''Iframe not found'']]\<rparr>)"
  by (simp add: scrapeCuevanaStream_def cuevanaTry_def http_get_def
      world_nosrc_def site_def start_def attr_src_def console_warn_def)

text \<open>
  C8, amended: for a page that is fetched, the extraction step reads the \<^verbatim>\<open>src\<close>
  attribute of the first inline-frame element. It fails, with \<^verbatim>\<open>Iframe not found\<close> and
  no further request, exactly when that attribute is missing or empty: when the page
  has no inline frame, or its first inline frame has no \<^verbatim>\<open>src\<close> or an empty one.
  Otherwise the scraper goes on to request that source. This holds for both scrapers.
\<close>

theorem C8_frame_source:
  "(axios_get w (length (requests s)) (''https://cuevana3.me/'' @ cid) = Inr page \<longrightarrow>
      frame_step cuevanaTry ''https://cuevana3.me/'' w cid s page) \<and>
   (axios_get w (length (requests s)) (''https://pelisplushd.net/ver/'' @ cid) = Inr page \<longrightarrow>
      frame_step failoverTry ''https://pelisplushd.net/ver/'' w cid s page)"
proof (intro conjI impI)
  assume "axios_get w (length (requests s)) (''https://cuevana3.me/'' @ cid) = Inr page"
  then show "frame_step cuevanaTry ''https://cuevana3.me/'' w cid s page"
    by (auto simp: frame_step_def cuevanaTry_def http_get_def Let_def attr_src_def
        cuevanaMaster_requests split: list.splits sum.splits option.splits)
next
  assume "axios_get w (length (requests s)) (''https://pelisplushd.net/ver/'' @ cid) = Inr page"
  then show "frame_step failoverTry ''https://pelisplushd.net/ver/'' w cid s page"
    by (auto simp: frame_step_def failoverTry_def http_get_def Let_def attr_src_def
        split: list.splits sum.splits option.splits)
qed

theorem C8_frame_source_witness:
  "axios_get world_variants 0 ''https://cuevana3.me/film-7'' = Inr page_7 \<and>
   cheerio_iframes world_variants page_7 = [Some ''https://p.example/e/7''] \<and>
   prefix [''https://cuevana3.me/film-7'', ''https://p.example/e/7'']
     (requests (snd (snd (cuevanaTry world_variants ''film-7'' [] start)))) \<and>
   axios_get world_nosrc 0 ''https://cuevana3.me/lazy-8'' = Inr page_8 \<and>
   cheerio_iframes world_nosrc page_8 = [None] \<and>
   cuevanaTry world_nosrc ''lazy-8'' [] start =
     (Some (JsError ''Iframe not found''), [],
      start\<lparr>requests := [''https://cuevana3.me/lazy-8'']\<rparr>)"
proof -
  have a: "axios_get world_variants 0 ''https://cuevana3.me/film-7'' = Inr page_7"
    and b: "cheerio_iframes world_variants page_7 = [Some ''https://p.example/e/7'']"
    by (simp_all add: world_variants_def site_def)
  have c: "axios_get world_nosrc 0 ''https://cuevana3.me/lazy-8'' = Inr page_8"
    and d: "cheerio_iframes world_nosrc page_8 = [None]"
    by (simp_all add: world_nosrc_def site_def)
  have r: "requests start = []"
    by (simp add: start_def)
  from C8_frame_source [of world_variants start "''film-7''" page_7] a r
  have "frame_step cuevanaTry ''https://cuevana3.me/'' world_variants ''film-7'' start page_7"
    by simp
  with b r have e: "prefix [''https://cuevana3.me/film-7'', ''https://p.example/e/7'']
     (requests (snd (snd (cuevanaTry world_variants ''film-7'' [] start))))"
    by (simp add: frame_step_def)
  from C8_frame_source [of world_nosrc start "''lazy-8''" page_8] c r
  have "frame_step cuevanaTry ''https://cuevana3.me/'' world_nosrc ''lazy-8'' start page_8"
    by simp
  with d r have "cuevanaTry world_nosrc ''lazy-8'' [] start =
     (Some (JsError ''Iframe not found''), [],
      start\<lparr>requests := [''https://cuevana3.me/lazy-8'']\<rparr>)"
    by (simp add: frame_step_def)
  with a b c d e show ?thesis by simp
qed

subsection \<open>C9\<close>



subsection \<open>C10\<close>

text \<open>
  C10: every stream the primary scraper returns is named \<^verbatim>\<open>Cuevana Stream\<close>; every stream
  the failover scraper returns is named \<^verbatim>\<open>Failover Stream\<close> and titled
  \<^verbatim>\<open>Auto (Failover)\<close>; the list the handler gets from the two scrapers carries one of the
  two names throughout.
\<close>

theorem C10_source_names:
  "(\<forall>st \<in> set (fst (scrapeCuevanaStream w cid s)). name st = ''Cuevana Stream'') \<and>
   (\<forall>st \<in> set (fst (scrapeFailoverStream w cid s)).
      name st = ''Failover Stream'' \<and> title st = ''Auto (Failover)'') \<and>
   ((\<forall>st \<in> set (fst (handlerMiss w cid k s)). name st = ''Cuevana Stream'') \<or>
    (\<forall>st \<in> set (fst (handlerMiss w cid k s)). name st = ''Failover Stream''))"
proof (intro conjI)
  show "\<forall>st \<in> set (fst (scrapeCuevanaStream w cid s)). name st = ''Cuevana Stream''"
    using scrapeCuevanaStream_name by blast
  show "\<forall>st \<in> set (fst (scrapeFailoverStream w cid s)).
      name st = ''Failover Stream'' \<and> title st = ''Auto (Failover)''"
    using scrapeFailoverStream_name by blast
  from scrapeWithFailover_cases [of w cid s]
  show "(\<forall>st \<in> set (fst (handlerMiss w cid k s)). name st = ''Cuevana Stream'') \<or>
    (\<forall>st \<in> set (fst (handlerMiss w cid k s)). name st = ''Failover Stream'')"
  proof
    assume "fst (scrapeCuevanaStream w cid s) \<noteq> [] \<and>
      scrapeWithFailover w cid s = scrapeCuevanaStream w cid s"
    then show ?thesis
      using scrapeCuevanaStream_name by (simp add: handlerMiss_streams)
  next
    assume "fst (scrapeCuevanaStream w cid s) = [] \<and>
      scrapeWithFailover w cid s =
        scrapeFailoverStream w cid
          (console_warn [''Primary site failed, trying failover for '' @ cid]
             (snd (scrapeCuevanaStream w cid s)))"
    then show ?thesis
      using scrapeFailoverStream_name by (simp add: handlerMiss_streams)
  qed
qed

theorem C10_source_names_witness:
  "map name (fst (scrapeCuevanaStream world_variants ''film-7'' start)) =
     [''Cuevana Stream'', ''Cuevana Stream''] \<and>
   map name (fst (scrapeFailoverStream world_failover ''movie-42'' start)) =
     [''Failover Stream''] \<and>
   map title (fst (scrapeFailoverStream world_failover ''movie-42'' start)) =
     [''Auto (Failover)''] \<and>
   map name (fst (handlerMiss world_failover ''movie-42'' ''stream:movie-42'' start)) =
     [''Failover Stream'']"
  using C10_source_names [of world_variants "''film-7''" start]
    C10_source_names [of world_failover "''movie-42''" start "''stream:movie-42''"]
  by (simp add: scrapeCuevanaStream_variants scrapeFailoverStream_failover
      handlerMiss_streams scrapeWithFailover_failover)

end
